theory Spec2Isabelle
  imports Main
begin

section \<open>Python primitives used by pptx\_merger.py\<close>

text \<open>
  Strings are lists of characters with code points below 256.  Among those, the only
  characters that Python's \<open>\d\<close> and \<open>int()\<close> accept as decimal digits are
  \<open>0\<close> to \<open>9\<close>.
\<close>

definition is_digit :: "char \<Rightarrow> bool" where
  "is_digit c \<longleftrightarrow> 48 \<le> (of_char c :: nat) \<and> (of_char c :: nat) \<le> 57"

definition digit_val :: "char \<Rightarrow> nat" where
  "digit_val c = of_char c - 48"

definition digit_char :: "nat \<Rightarrow> char" where
  "digit_char d = char_of (48 + d)"

text \<open>\<open>str(n)\<close> for a Python int.\<close>

function str_nat :: "nat \<Rightarrow> string" where
  "str_nat n = (if n < 10 then [digit_char n] else str_nat (n div 10) @ [digit_char (n mod 10)])"
  by pat_completeness auto
termination
  by (relation "measure id") auto

declare str_nat.simps [simp del]

definition str_int :: "int \<Rightarrow> string" where
  "str_int i = (if i < 0 then CHR ''-'' # str_nat (nat (- i)) else str_nat (nat i))"

text \<open>
  \<open>int(s)\<close> in base 10: surrounding whitespace is skipped (among the code points below
  256: tab, line feed, vertical tab, form feed, carriage return, space, 0x85 and 0xA0), one
  sign is allowed, and the digits may be separated by single underscores.  \<open>None\<close> is
  \<open>ValueError\<close>.
\<close>

definition py_space :: "char \<Rightarrow> bool" where
  "py_space c \<longleftrightarrow> (of_char c :: nat) \<in> {9, 10, 11, 12, 13, 32, 133, 160}"

definition strip_space :: "string \<Rightarrow> string" where
  "strip_space s = rev (dropWhile py_space (rev (dropWhile py_space s)))"

fun scan_digits :: "bool \<Rightarrow> nat \<Rightarrow> string \<Rightarrow> nat option" where
  "scan_digits prev acc [] = (if prev then Some acc else None)"
| "scan_digits prev acc (c # cs) =
     (if is_digit c then scan_digits True (acc * 10 + digit_val c) cs
      else if c = CHR ''_'' \<and> prev then scan_digits False acc cs
      else None)"

definition py_int :: "string \<Rightarrow> int option" where
  "py_int s =
     (case strip_space s of
        [] \<Rightarrow> None
      | c # cs \<Rightarrow>
          if c = CHR ''-'' then map_option (\<lambda>n. - int n) (scan_digits False 0 cs)
          else if c = CHR ''+'' then map_option int (scan_digits False 0 cs)
          else map_option int (scan_digits False 0 (c # cs)))"

text \<open>The value of a run of decimal digits, continuing from \<open>acc\<close>.\<close>

definition digits_value :: "nat \<Rightarrow> string \<Rightarrow> nat" where
  "digits_value acc ds = foldl (\<lambda>a c. a * 10 + digit_val c) acc ds"

text \<open>\<open>s.startswith(p)\<close> and \<open>s.endswith(p)\<close>.\<close>

definition startswith :: "string \<Rightarrow> string \<Rightarrow> bool" where
  "startswith s p \<longleftrightarrow> take (length p) s = p"

definition endswith :: "string \<Rightarrow> string \<Rightarrow> bool" where
  "endswith s p \<longleftrightarrow> length p \<le> length s \<and> drop (length s - length p) s = p"

section \<open>Relationship parts\<close>

text \<open>
  A \<open>Relationship\<close> element with the three attributes the merger reads;
  \<open>None\<close> is an absent attribute (\<open>el.get\<close> returns \<open>None\<close>).
\<close>

record relationship =
  rel_Id :: "string option"
  rel_Type :: "string option"
  rel_Target :: "string option"

text \<open>The loop of \<open>next_rel_id\<close> that collects \<open>rids\<close>.\<close>

fun collect_rids :: "relationship list \<Rightarrow> int list" where
  "collect_rids [] = []"
| "collect_rids (rel # rels) =
     (case rel_Id rel of
        None \<Rightarrow> collect_rids rels
      | Some rid \<Rightarrow>
          if rid \<noteq> [] \<and> startswith rid ''rId'' then
            (case py_int (drop 3 rid) of
               Some v \<Rightarrow> v # collect_rids rels
             | None \<Rightarrow> collect_rids rels)
          else collect_rids rels)"

definition next_rel_id :: "relationship list \<Rightarrow> string" where
  "next_rel_id rels =
     (let rids = collect_rids rels
      in ''rId'' @ str_int ((if rids \<noteq> [] then Max (set rids) else 0) + 1))"

section \<open>Facts about the primitives\<close>

lemma digit_char_is_digit: "d < 10 \<Longrightarrow> is_digit (digit_char d)"
  by (simp add: is_digit_def digit_char_def)

lemma digit_val_digit_char: "d < 10 \<Longrightarrow> digit_val (digit_char d) = d"
  by (simp add: digit_val_def digit_char_def)

lemma str_nat_all_digits: "\<forall>c \<in> set (str_nat n). is_digit c"
proof (induction n rule: str_nat.induct)
  case (1 n)
  show ?case
  proof (cases "n < 10")
    case True
    then show ?thesis by (simp add: str_nat.simps [of n] digit_char_is_digit)
  next
    case False
    with 1 show ?thesis by (simp add: str_nat.simps [of n] digit_char_is_digit)
  qed
qed

lemma str_nat_not_Nil: "str_nat n \<noteq> []"
  by (simp add: str_nat.simps [of n])

lemma scan_digits_append:
  "\<forall>c \<in> set xs. is_digit c \<Longrightarrow>
   scan_digits p acc (xs @ ys) = scan_digits (p \<or> xs \<noteq> []) (digits_value acc xs) ys"
  by (induction xs arbitrary: p acc) (simp_all add: digits_value_def)

lemma digits_value_str_nat: "digits_value 0 (str_nat n) = n"
proof (induction n rule: str_nat.induct)
  case (1 n)
  show ?case
  proof (cases "n < 10")
    case True
    then show ?thesis by (simp add: str_nat.simps [of n] digits_value_def digit_val_digit_char)
  next
    case False
    with 1 have "digits_value 0 (str_nat (n div 10)) = n div 10" by simp
    with False show ?thesis
      by (simp add: str_nat.simps [of n] digits_value_def digit_val_digit_char)
  qed
qed

lemma scan_digits_str_nat: "scan_digits False 0 (str_nat n) = Some n"
  using scan_digits_append [OF str_nat_all_digits, of False 0 n "[]"]
  by (simp add: digits_value_str_nat str_nat_not_Nil)

lemma is_digit_not_space: "is_digit c \<Longrightarrow> \<not> py_space c"
  by (auto simp: is_digit_def py_space_def)

lemma strip_space_id:
  assumes "s \<noteq> []" "\<not> py_space (hd s)" "\<not> py_space (last s)"
  shows "strip_space s = s"
proof -
  from assms have 1: "dropWhile py_space s = s" by (cases s) auto
  from assms have "dropWhile py_space (rev s) = rev s"
    by (cases "rev s") (auto dest!: arg_cong [where f = hd] simp: hd_rev)
  with 1 show ?thesis by (simp add: strip_space_def)
qed

lemma str_nat_hd_last: "is_digit (hd (str_nat n))" "is_digit (last (str_nat n))"
  using str_nat_all_digits [of n] str_nat_not_Nil [of n] by auto

lemma is_digit_not_sign: "is_digit c \<Longrightarrow> c \<noteq> CHR ''-'' \<and> c \<noteq> CHR ''+''"
  by (auto simp: is_digit_def)

text \<open>\<open>int(str(i)) == i\<close> for every Python int.\<close>

lemma py_int_str_int: "py_int (str_int i) = Some i"
proof (cases "i < 0")
  case True
  have "\<not> py_space (CHR ''-'')" by (simp add: py_space_def)
  then have "strip_space (CHR ''-'' # str_nat (nat (- i))) = CHR ''-'' # str_nat (nat (- i))"
    using str_nat_hd_last(2) [of "nat (- i)"] str_nat_not_Nil [of "nat (- i)"]
    by (intro strip_space_id) (auto dest: is_digit_not_space)
  with True show ?thesis
    by (simp add: py_int_def str_int_def scan_digits_str_nat)
next
  case False
  obtain c cs where cs: "str_nat (nat i) = c # cs"
    using str_nat_not_Nil [of "nat i"] by (cases "str_nat (nat i)") auto
  have "strip_space (str_nat (nat i)) = str_nat (nat i)"
    using str_nat_hd_last [of "nat i"] str_nat_not_Nil [of "nat i"]
    by (intro strip_space_id) (auto dest: is_digit_not_space)
  moreover have "is_digit c" using str_nat_hd_last(1) [of "nat i"] cs by simp
  moreover have "scan_digits False 0 (c # cs) = Some (nat i)"
    using scan_digits_str_nat [of "nat i"] cs by simp
  ultimately show ?thesis using False cs is_digit_not_sign [of c]
    by (simp add: py_int_def str_int_def del: scan_digits.simps)
qed

lemma str_int_inject: "str_int i = str_int j \<Longrightarrow> i = j"
  by (metis option.inject py_int_str_int)

text \<open>
  What the signature of \<open>next_rel_id\<close> is usually read as: only identifiers made of
  \<open>rId\<close> followed by one or more decimal digits count, every other identifier is
  treated as absent.  Used only to compare with \<open>next_rel_id\<close>.
\<close>

definition rid_digits_form :: "string \<Rightarrow> bool" where
  "rid_digits_form rid \<longleftrightarrow>
     startswith rid ''rId'' \<and> drop 3 rid \<noteq> [] \<and> list_all is_digit (drop 3 rid)"

fun digit_form_rids :: "relationship list \<Rightarrow> int list" where
  "digit_form_rids [] = []"
| "digit_form_rids (rel # rels) =
     (case rel_Id rel of
        None \<Rightarrow> digit_form_rids rels
      | Some rid \<Rightarrow>
          if rid_digits_form rid then int (digits_value 0 (drop 3 rid)) # digit_form_rids rels
          else digit_form_rids rels)"

definition digit_form_next_rel_id :: "relationship list \<Rightarrow> string" where
  "digit_form_next_rel_id rels =
     (let rids = digit_form_rids rels
      in ''rId'' @ str_int ((if rids \<noteq> [] then Max (set rids) else 0) + 1))"

section \<open>Errors\<close>

text \<open>
  The exceptions the merger can raise.  \<open>OSError\<close> stands for every failure of a
  file-system call (missing file, a directory where a file is needed and the reverse, copying
  a file onto itself); \<open>RecursionError\<close> is raised when the nesting of
  \<open>copy_part_with_dependencies\<close> exceeds the interpreter's recursion limit.
\<close>

datatype error = ValueError | TypeError | OSError | XMLSyntaxError | RecursionError

section \<open>Content-type manifest\<close>

text \<open>
  The \<open>Default\<close> children (attributes \<open>Extension\<close>, \<open>ContentType\<close>) and the
  \<open>Override\<close> children (attributes \<open>PartName\<close>, \<open>ContentType\<close>) of the manifest
  root, each in document order.
\<close>

type_synonym attr_pair = "string option \<times> string option"

record content_types =
  ct_defaults :: "attr_pair list"
  ct_overrides :: "attr_pair list"

definition CT_OVERRIDES :: "(string \<times> string) list" where
  "CT_OVERRIDES =
     [(''slides'', ''application/vnd.openxmlformats-officedocument.presentationml.slide+xml''),
      (''slideLayouts'', ''application/vnd.openxmlformats-officedocument.presentationml.slideLayout+xml''),
      (''slideMasters'', ''application/vnd.openxmlformats-officedocument.presentationml.slideMaster+xml''),
      (''charts'', ''application/vnd.openxmlformats-officedocument.drawingml.chart+xml''),
      (''theme'', ''application/vnd.openxmlformats-officedocument.theme+xml''),
      (''notesSlides'', ''application/vnd.openxmlformats-officedocument.presentationml.notesSlide+xml''),
      (''handoutMasters'', ''application/vnd.openxmlformats-officedocument.presentationml.handoutMaster+xml''),
      (''notesMasters'', ''application/vnd.openxmlformats-officedocument.presentationml.notesMaster+xml'')]"

definition add_content_type_override :: "content_types \<Rightarrow> string \<Rightarrow> string \<Rightarrow> content_types" where
  "add_content_type_override ct part_name content_type =
     (if list_ex (\<lambda>el. fst el = Some part_name) (ct_overrides ct) then ct
      else ct\<lparr>ct_overrides := ct_overrides ct @ [(Some part_name, Some content_type)]\<rparr>)"

text \<open>
  The loop of \<open>ensure_default_types_from_source\<close>: \<open>have\<close> is the set of pairs seen,
  \<open>d\<close> the \<open>Default\<close> children of the destination root.  Setting an attribute to
  \<open>None\<close> raises \<open>TypeError\<close>.
\<close>

fun merge_defaults_loop ::
  "attr_pair set \<Rightarrow> attr_pair list \<Rightarrow> attr_pair list \<Rightarrow> error + attr_pair list" where
  "merge_defaults_loop have d [] = Inr d"
| "merge_defaults_loop have d (pair # rest) =
     (if pair \<notin> have then
        (case pair of
           (Some e, Some t) \<Rightarrow> merge_defaults_loop (insert pair have) (d @ [pair]) rest
         | _ \<Rightarrow> Inl TypeError)
      else merge_defaults_loop have d rest)"

definition ensure_default_types_from_source ::
  "content_types \<Rightarrow> content_types \<Rightarrow> error + content_types" where
  "ensure_default_types_from_source dest_ct src_ct =
     (case merge_defaults_loop (set (ct_defaults dest_ct)) (ct_defaults dest_ct) (ct_defaults src_ct) of
        Inl e \<Rightarrow> Inl e
      | Inr d \<Rightarrow> Inr (dest_ct\<lparr>ct_defaults := d\<rparr>))"

section \<open>Paths\<close>

text \<open>
  POSIX paths as \<open>pathlib\<close> and \<open>os.path\<close> treat them.  \<open>s.split("/")\<close>:
\<close>

fun split_slash :: "string \<Rightarrow> string list" where
  "split_slash [] = [[]]"
| "split_slash (c # cs) =
     (if c = CHR ''/'' then [] # split_slash cs
      else (case split_slash cs of [] \<Rightarrow> [[c]] | x # xs \<Rightarrow> (c # x) # xs))"

fun join_slash :: "string list \<Rightarrow> string" where
  "join_slash [] = []"
| "join_slash [x] = x"
| "join_slash (x # y # ys) = x @ ''/'' @ join_slash (y # ys)"

text \<open>
  A \<open>PurePosixPath\<close> is its anchor (empty, \<open>/\<close>, or \<open>//\<close> for exactly two
  leading slashes) and its parts: the components between slashes, empty ones and \<open>.\<close>
  dropped, \<open>..\<close> kept.
\<close>

type_synonym pure_path = "string \<times> string list"

definition path_anchor :: "string \<Rightarrow> string" where
  "path_anchor s =
     (let k = length (takeWhile (\<lambda>c. c = CHR ''/'') s)
      in if k = 0 then [] else if k = 2 then ''//'' else ''/'')"

definition path_parts :: "string \<Rightarrow> string list" where
  "path_parts s = filter (\<lambda>c. c \<noteq> [] \<and> c \<noteq> ''.'') (split_slash s)"

definition Path :: "string \<Rightarrow> pure_path" where
  "Path s = (path_anchor s, path_parts s)"

text \<open>\<open>p / s\<close>: an absolute right operand replaces the left one.\<close>

definition joinpath :: "pure_path \<Rightarrow> string \<Rightarrow> pure_path" where
  "joinpath p s = (if path_anchor s \<noteq> [] then Path s else (fst p, snd p @ path_parts s))"

definition path_parent :: "pure_path \<Rightarrow> pure_path" where
  "path_parent p = (fst p, butlast (snd p))"

definition path_name :: "pure_path \<Rightarrow> string" where
  "path_name p = (if snd p = [] then [] else last (snd p))"

definition as_posix :: "pure_path \<Rightarrow> string" where
  "as_posix p = (if fst p = [] \<and> snd p = [] then ''.'' else fst p @ join_slash (snd p))"

text \<open>\<open>s.strip("/")\<close> and \<open>s.replace("\\", "/")\<close> (the backslash is character 92).\<close>

definition strip_slashes :: "string \<Rightarrow> string" where
  "strip_slashes s =
     rev (dropWhile (\<lambda>c. c = CHR ''/'') (rev (dropWhile (\<lambda>c. c = CHR ''/'') s)))"

definition replace_backslash :: "string \<Rightarrow> string" where
  "replace_backslash s = map (\<lambda>c. if c = CHR 0x5C then CHR ''/'' else c) s"

text \<open>
  \<open>os.path.splitext\<close>: the extension starts at the last dot of the last component,
  unless only dots precede it there.
\<close>

definition splitext :: "string \<Rightarrow> string \<times> string" where
  "splitext p =
     (let filenameIndex = length p - length (takeWhile (\<lambda>c. c \<noteq> CHR ''/'') (rev p));
          dotIndex = length p - 1 - length (takeWhile (\<lambda>c. c \<noteq> CHR ''.'') (rev p))
      in if CHR ''.'' \<in> set p \<and> filenameIndex \<le> dotIndex \<and>
            list_ex (\<lambda>c. c \<noteq> CHR ''.'') (take (dotIndex - filenameIndex) (drop filenameIndex p))
         then (take dotIndex p, drop dotIndex p)
         else (p, []))"

text \<open>
  \<open>os.path.abspath\<close> as the list of components below the root: the path is joined to
  the working directory unless it is absolute, and \<open>normpath\<close> drops empty components
  and \<open>.\<close> and resolves \<open>..\<close> against the component before it (at the root,
  \<open>..\<close> is dropped).  The working directory \<open>cwd\<close> is given as its components.
\<close>

fun norm_abs :: "string list \<Rightarrow> string list \<Rightarrow> string list" where
  "norm_abs acc [] = acc"
| "norm_abs acc (c # cs) =
     (if c = [] \<or> c = ''.'' then norm_abs acc cs
      else if c = ''..'' then norm_abs (butlast acc) cs
      else norm_abs (acc @ [c]) cs)"

definition abspath :: "string list \<Rightarrow> string \<Rightarrow> string list" where
  "abspath cwd s =
     (if startswith s ''/'' then norm_abs [] (split_slash s) else norm_abs cwd (split_slash s))"

fun commonprefix_len :: "string list \<Rightarrow> string list \<Rightarrow> nat" where
  "commonprefix_len (x # xs) (y # ys) = (if x = y then Suc (commonprefix_len xs ys) else 0)"
| "commonprefix_len _ _ = 0"

text \<open>\<open>os.path.relpath(path, start)\<close>; an empty \<open>path\<close> raises \<open>ValueError\<close>.\<close>

definition relpath :: "string list \<Rightarrow> string \<Rightarrow> string \<Rightarrow> error + string" where
  "relpath cwd path start =
     (if path = [] then Inl ValueError
      else
        let start_list = abspath cwd start;
            path_list = abspath cwd path;
            i = commonprefix_len start_list path_list;
            rel_list = replicate (length start_list - i) ''..'' @ drop i path_list
        in if rel_list = [] then Inr ''.'' else Inr (join_slash rel_list))"

section \<open>The file system\<close>

text \<open>
  A file is its bytes, seen two ways: \<open>xml_rels\<close> is \<open>None\<close> when the bytes are not
  well-formed XML, and otherwise the \<open>Relationship\<close> children of the document's root in
  document order; \<open>payload\<close> stands for everything else in the file.
\<close>

record content =
  payload :: string
  xml_rels :: "relationship list option"

text \<open>
  The file system is the files and the directories, each under the list of its components
  from the root \<open>/\<close>, which always exists.  There are no symbolic links (archive
  extraction creates none) and no limit on the length of a path.
\<close>

record filesys =
  fs_files :: "(string list \<times> content) list"
  fs_dirs :: "string list list"

definition is_file :: "filesys \<Rightarrow> string list \<Rightarrow> bool" where
  "is_file fs p \<longleftrightarrow> map_of (fs_files fs) p \<noteq> None"

definition is_dir :: "filesys \<Rightarrow> string list \<Rightarrow> bool" where
  "is_dir fs p \<longleftrightarrow> p = [] \<or> p \<in> set (fs_dirs fs)"

definition exists_node :: "filesys \<Rightarrow> string list \<Rightarrow> bool" where
  "exists_node fs p \<longleftrightarrow> is_dir fs p \<or> is_file fs p"

text \<open>
  Path resolution as the operating system does it, component by component from the
  directory \<open>cur\<close>: every component is looked up in a directory, \<open>..\<close> is the
  directory above, and every step must reach a file or a directory that exists.
\<close>

fun walk :: "filesys \<Rightarrow> string list \<Rightarrow> string list \<Rightarrow> string list option" where
  "walk fs cur [] = Some cur"
| "walk fs cur (c # cs) =
     (if \<not> is_dir fs cur then None
      else
        let nxt = (if c = ''..'' then butlast cur else cur @ [c])
        in if exists_node fs nxt then walk fs nxt cs else None)"

text \<open>
  An absolute \<open>Path\<close> object is the list of its parts; \<open>root / s\<close> for an absolute
  \<open>root\<close>:
\<close>

definition div_path :: "string list \<Rightarrow> string \<Rightarrow> string list" where
  "div_path root s = (if path_anchor s \<noteq> [] then path_parts s else root @ path_parts s)"

text \<open>\<open>path.exists()\<close>.\<close>

definition path_exists :: "filesys \<Rightarrow> string list \<Rightarrow> bool" where
  "path_exists fs p \<longleftrightarrow> walk fs [] p \<noteq> None"

text \<open>\<open>os.listdir\<close> of a directory (in some order, each name once).\<close>

definition listdir :: "filesys \<Rightarrow> string list \<Rightarrow> string list" where
  "listdir fs d =
     remdups (map last (filter (\<lambda>p. p \<noteq> [] \<and> butlast p = d) (map fst (fs_files fs) @ fs_dirs fs)))"

text \<open>
  \<open>ensure_dir\<close>, that is \<open>path.mkdir(parents=True, exist_ok=True)\<close>: every missing
  directory on the way is created; a file on the way is an error.
\<close>

fun mkdirs :: "filesys \<Rightarrow> string list \<Rightarrow> string list \<Rightarrow> error + filesys" where
  "mkdirs fs cur [] = Inr fs"
| "mkdirs fs cur (c # cs) =
     (let nxt = (if c = ''..'' then butlast cur else cur @ [c])
      in if is_file fs nxt then Inl OSError
         else if is_dir fs nxt then mkdirs fs nxt cs
         else mkdirs (fs\<lparr>fs_dirs := nxt # fs_dirs fs\<rparr>) nxt cs)"

definition ensure_dir :: "filesys \<Rightarrow> string list \<Rightarrow> error + filesys" where
  "ensure_dir fs p = mkdirs fs [] p"

text \<open>
  Opening a path for writing creates or truncates the file; its directory must exist and
  the path must not be a directory.
\<close>

definition store :: "filesys \<Rightarrow> string list \<Rightarrow> content \<Rightarrow> filesys" where
  "store fs p c = fs\<lparr>fs_files := (p, c) # filter (\<lambda>e. fst e \<noteq> p) (fs_files fs)\<rparr>"

definition write_target :: "filesys \<Rightarrow> string list \<Rightarrow> string list option" where
  "write_target fs p =
     (if p = [] then None
      else
        (case walk fs [] (butlast p) of
           None \<Rightarrow> None
         | Some d \<Rightarrow>
             if \<not> is_dir fs d then None
             else
               let t = (if last p = ''..'' then butlast d else d @ [last p])
               in if is_dir fs t then None else Some t))"

text \<open>\<open>shutil.copyfile(src, dst)\<close>.\<close>

definition copyfile :: "filesys \<Rightarrow> string list \<Rightarrow> string list \<Rightarrow> error + filesys" where
  "copyfile fs src dst =
     (case walk fs [] src of
        None \<Rightarrow> Inl OSError
      | Some sp \<Rightarrow>
          (case map_of (fs_files fs) sp of
             None \<Rightarrow> Inl OSError
           | Some c \<Rightarrow>
               (case write_target fs dst of
                  None \<Rightarrow> Inl OSError
                | Some t \<Rightarrow> if t = sp then Inl OSError else Inr (store fs t c))))"

text \<open>
  \<open>parse_xml(path)\<close>: the file as read, and the relationships of its document.
\<close>

definition parse_xml :: "filesys \<Rightarrow> string list \<Rightarrow> error + content \<times> relationship list" where
  "parse_xml fs p =
     (case walk fs [] p of
        None \<Rightarrow> Inl OSError
      | Some sp \<Rightarrow>
          (case map_of (fs_files fs) sp of
             None \<Rightarrow> Inl OSError
           | Some c \<Rightarrow> (case xml_rels c of None \<Rightarrow> Inl XMLSyntaxError | Some rels \<Rightarrow> Inr (c, rels))))"

text \<open>
  \<open>write_xml(tree, path)\<close> for a tree that was parsed from \<open>original\<close> and whose
  relationships are now \<open>rels\<close>.
\<close>

definition write_xml ::
  "filesys \<Rightarrow> content \<Rightarrow> relationship list \<Rightarrow> string list \<Rightarrow> error + filesys" where
  "write_xml fs original rels p =
     (case ensure_dir fs (butlast p) of
        Inl e \<Rightarrow> Inl e
      | Inr fs1 \<Rightarrow>
          (case write_target fs1 p of
             None \<Rightarrow> Inl OSError
           | Some t \<Rightarrow> Inr (store fs1 t (original\<lparr>xml_rels := Some rels\<rparr>))))"

section \<open>Name allocation\<close>

text \<open>The first match of \<open>(\d+)\<close> in a name; empty when there is no digit.\<close>

definition first_digit_run :: "string \<Rightarrow> string" where
  "first_digit_run nm = takeWhile is_digit (dropWhile (\<lambda>c. \<not> is_digit c) nm)"

fun max_index_loop :: "int \<Rightarrow> string list \<Rightarrow> string \<Rightarrow> string \<Rightarrow> error + int" where
  "max_index_loop mx [] prefix suffix = Inr mx"
| "max_index_loop mx (nm # names) prefix suffix =
     (if startswith nm prefix \<and> endswith nm suffix then
        (let m = first_digit_run nm
         in if m \<noteq> [] then
              (case py_int m of
                 None \<Rightarrow> Inl ValueError
               | Some v \<Rightarrow> max_index_loop (max mx v) names prefix suffix)
            else max_index_loop mx names prefix suffix)
      else max_index_loop mx names prefix suffix)"

definition max_index :: "filesys \<Rightarrow> string list \<Rightarrow> string \<Rightarrow> string \<Rightarrow> error + int" where
  "max_index fs dir_path prefix suffix =
     (case walk fs [] dir_path of
        None \<Rightarrow> Inr 0
      | Some d \<Rightarrow>
          if is_dir fs d then max_index_loop 0 (listdir fs d) prefix suffix else Inl OSError)"

text \<open>
  A name that a directory can hold: not empty, without a slash, and neither \<open>.\<close> nor
  \<open>..\<close>.  \<open>valid_names\<close> says that every component of every file and directory of
  the file system is one.
\<close>

definition valid_name :: "string \<Rightarrow> bool" where
  "valid_name c \<longleftrightarrow> c \<noteq> [] \<and> CHR ''/'' \<notin> set c \<and> c \<noteq> ''.'' \<and> c \<noteq> ''..''"

definition valid_names :: "filesys \<Rightarrow> bool" where
  "valid_names fs \<longleftrightarrow> list_all (list_all valid_name) (map fst (fs_files fs) @ fs_dirs fs)"

text \<open>The folders with a numbering convention and their prefixes, as \<open>pick_new_filename\<close> lists them.\<close>

definition numbered_kinds :: "(string \<times> string) list" where
  "numbered_kinds =
     [(''slides'', ''slide''), (''slideLayouts'', ''slideLayout''), (''slideMasters'', ''slideMaster''),
      (''charts'', ''chart''), (''theme'', ''theme''), (''notesSlides'', ''notesSlide'')]"

text \<open>
  The numbers that \<open>max_index\<close> reads off the names of a listing: a name counts when it
  starts with the prefix, ends with the suffix and contains a digit, and its number is its
  first run of digits.
\<close>

definition indices :: "string list \<Rightarrow> string \<Rightarrow> string \<Rightarrow> int set" where
  "indices names prefix suffix =
     {v. \<exists>nm \<in> set names. startswith nm prefix \<and> endswith nm suffix \<and>
          first_digit_run nm \<noteq> [] \<and> py_int (first_digit_run nm) = Some v}"

section \<open>The fallback scan for a free name\<close>

text \<open>
  For folders without a numbering convention \<open>pick_new_filename\<close> tries the original
  name, then \<open>base_1 ext\<close>, \<open>base_2 ext\<close>, ... until the path does not exist.
  The scan ends because the candidates differ in one component and the file system holds
  finitely many names; the lemmas below are what the termination proof needs.
\<close>

lemma split_slash_not_Nil [simp]: "split_slash s \<noteq> []"
  by (induction s) (auto split: list.splits)

lemma split_slash_append:
  "split_slash (a @ b) =
     butlast (split_slash a) @ [last (split_slash a) @ hd (split_slash b)] @ tl (split_slash b)"
proof (induction a)
  case Nil
  show ?case by (cases "split_slash b") (use split_slash_not_Nil [of b] in auto)
next
  case (Cons c a)
  then show ?case
    by (cases "split_slash a"; cases "split_slash (a @ b)") (auto split: list.splits if_splits)
qed

lemma split_slash_no_slash: "CHR ''/'' \<notin> set s \<Longrightarrow> split_slash s = [s]"
  by (induction s) auto

lemma walk_component:
  "walk fs cur cs = Some r \<Longrightarrow> c \<in> set cs \<Longrightarrow> c \<noteq> ''..'' \<Longrightarrow>
   c \<in> last ` (fst ` set (fs_files fs) \<union> set (fs_dirs fs))"
proof (induction cs arbitrary: cur)
  case Nil
  then show ?case by simp
next
  case (Cons a cs)
  show ?case
  proof (cases "c = a")
    case True
    with Cons.prems have "exists_node fs (cur @ [c])"
      by (auto simp: Let_def split: if_splits)
    then have "cur @ [c] \<in> fst ` set (fs_files fs) \<union> set (fs_dirs fs)"
      by (auto simp: exists_node_def is_dir_def is_file_def dest: map_of_SomeD weak_map_of_SomeI intro: rev_image_eqI)
    then show ?thesis by (metis (no_types, lifting) image_eqI last_snoc)
  next
    case False
    with Cons show ?thesis by (auto simp: Let_def split: if_splits)
  qed
qed


lemma str_nat_no_slash: "CHR ''/'' \<notin> set (str_nat j)"
  using str_nat_all_digits [of j] by (auto simp: is_digit_def)

lemma str_nat_inject: "str_nat i = str_nat j \<Longrightarrow> i = j"
  by (metis digits_value_str_nat)

text \<open>
  The component of the candidate \<open>base_j ext\<close> that carries the number \<open>j\<close>.
\<close>

definition marked :: "string \<Rightarrow> string \<Rightarrow> nat \<Rightarrow> string" where
  "marked base ext j = last (split_slash base) @ ''_'' @ str_nat j @ hd (split_slash ext)"

lemma marked_in_parts: "marked base ext j \<in> set (path_parts (base @ ''_'' @ str_nat j @ ext))"
proof -
  have ns: "CHR ''/'' \<notin> set (''_'' @ str_nat j)" using str_nat_no_slash by simp
  have "split_slash ((''_'' @ str_nat j) @ ext) =
          [(''_'' @ str_nat j) @ hd (split_slash ext)] @ tl (split_slash ext)"
    by (simp only: split_slash_append [of "''_'' @ str_nat j" ext] split_slash_no_slash [OF ns]) simp
  then have "hd (split_slash ((''_'' @ str_nat j) @ ext)) = (''_'' @ str_nat j) @ hd (split_slash ext)"
    by simp
  then have "marked base ext j \<in> set (split_slash (base @ (''_'' @ str_nat j) @ ext))"
    by (simp only: split_slash_append [of base "(''_'' @ str_nat j) @ ext"]) (simp add: marked_def)
  moreover have "marked base ext j \<noteq> []" "marked base ext j \<noteq> ''.''"
    by (auto simp: marked_def append_eq_Cons_conv)
  ultimately show ?thesis by (simp add: path_parts_def)
qed

lemma marked_not_dotdot: "marked base ext j \<noteq> ''..''"
  by (auto simp: marked_def append_eq_Cons_conv)

lemma inj_marked: "inj (marked base ext)"
  by (auto simp: inj_def marked_def dest: str_nat_inject)

lemma finite_taken:
  "finite {j. path_exists fs (div_path dst_folder (base @ ''_'' @ str_nat j @ ext))}"
proof -
  let ?N = "last ` (fst ` set (fs_files fs) \<union> set (fs_dirs fs))"
  have "{j. path_exists fs (div_path dst_folder (base @ ''_'' @ str_nat j @ ext))}
          \<subseteq> marked base ext -` ?N"
  proof
    fix j
    assume "j \<in> {j. path_exists fs (div_path dst_folder (base @ ''_'' @ str_nat j @ ext))}"
    then obtain r where w: "walk fs [] (div_path dst_folder (base @ ''_'' @ str_nat j @ ext)) = Some r"
      by (auto simp: path_exists_def)
    have "marked base ext j \<in> set (div_path dst_folder (base @ ''_'' @ str_nat j @ ext))"
      using marked_in_parts [of base ext j] by (simp add: div_path_def)
    from walk_component [OF w this marked_not_dotdot] show "j \<in> marked base ext -` ?N" by simp
  qed
  moreover have "finite (marked base ext -` ?N)"
    by (intro finite_vimageI inj_marked) simp
  ultimately show ?thesis by (rule finite_subset)
qed

text \<open>
  \<open>candidate = fname; i = 1; while (dst_folder / candidate).exists(): candidate =
  f"{base}_{i}{ext}"; i += 1\<close>
\<close>

function fallback_loop ::
  "filesys \<Rightarrow> string list \<Rightarrow> string \<Rightarrow> string \<Rightarrow> string \<Rightarrow> nat \<Rightarrow> string" where
  "fallback_loop fs dst_folder base ext candidate i =
     (if path_exists fs (div_path dst_folder candidate)
      then fallback_loop fs dst_folder base ext (base @ ''_'' @ str_nat i @ ext) (i + 1)
      else candidate)"
  by pat_completeness auto
termination
proof (relation "measure (\<lambda>(fs, dst_folder, base, ext, candidate, i).
          card {j. i \<le> j \<and> path_exists fs (div_path dst_folder (base @ ''_'' @ str_nat j @ ext))}
          + (if path_exists fs (div_path dst_folder candidate) then 1 else 0))")
  show "wf (measure (\<lambda>(fs, dst_folder, base, ext, candidate, i).
          card {j. i \<le> j \<and> path_exists fs (div_path dst_folder (base @ ''_'' @ str_nat j @ ext))}
          + (if path_exists fs (div_path dst_folder candidate) then 1 else 0)))"
    by simp
next
  fix fs :: filesys and dst_folder :: "string list" and base ext candidate :: string and i :: nat
  assume ex: "path_exists fs (div_path dst_folder candidate)"
  let ?E = "\<lambda>j. path_exists fs (div_path dst_folder (base @ ''_'' @ str_nat j @ ext))"
  have fin: "finite {j. i \<le> j \<and> ?E j}"
    by (rule finite_subset [OF _ finite_taken [of fs dst_folder base ext]]) auto
  have "card {j. i + 1 \<le> j \<and> ?E j} + (if ?E i then 1 else 0) = card {j. i \<le> j \<and> ?E j}"
  proof (cases "?E i")
    case True
    have "{j. i \<le> j \<and> ?E j} = insert i {j. i + 1 \<le> j \<and> ?E j}"
      using True by (auto simp: le_less Suc_le_eq)
    moreover have "finite {j. i + 1 \<le> j \<and> ?E j}"
      by (rule finite_subset [OF _ fin]) auto
    ultimately show ?thesis using True by simp
  next
    case False
    have "{j. i \<le> j \<and> ?E j} = {j. i + 1 \<le> j \<and> ?E j}"
      using False by (auto simp: Suc_le_eq le_less)
    with False show ?thesis by simp
  qed
  with ex show "((fs, dst_folder, base, ext, base @ ''_'' @ str_nat i @ ext, i + 1),
                 (fs, dst_folder, base, ext, candidate, i)) \<in> measure (\<lambda>(fs, dst_folder, base, ext, candidate, i).
          card {j. i \<le> j \<and> path_exists fs (div_path dst_folder (base @ ''_'' @ str_nat j @ ext))}
          + (if path_exists fs (div_path dst_folder candidate) then 1 else 0))"
    by simp
qed


text \<open>
  \<open>pick_new_filename\<close>; \<open>folder\<close>, \<open>dst_folder\<close>, \<open>fname\<close>,
  \<open>base\<close> and \<open>ext\<close> are the variables of the enclosing call.
\<close>

definition numbered_name :: "filesys \<Rightarrow> string list \<Rightarrow> string \<Rightarrow> error + string" where
  "numbered_name fs dst_folder prefix =
     (case max_index fs dst_folder prefix ''.xml'' of
        Inl e \<Rightarrow> Inl e
      | Inr mx \<Rightarrow> Inr (prefix @ str_int (mx + 1) @ ''.xml''))"

definition pick_new_filename ::
  "filesys \<Rightarrow> string list \<Rightarrow> string \<Rightarrow> string \<Rightarrow> string \<Rightarrow> string \<Rightarrow> error + string" where
  "pick_new_filename fs dst_folder folder fname base ext =
     (if folder = ''slides'' then numbered_name fs dst_folder ''slide''
      else if folder = ''slideLayouts'' then numbered_name fs dst_folder ''slideLayout''
      else if folder = ''slideMasters'' then numbered_name fs dst_folder ''slideMaster''
      else if folder = ''charts'' then numbered_name fs dst_folder ''chart''
      else if folder = ''theme'' then numbered_name fs dst_folder ''theme''
      else if folder = ''notesSlides'' then numbered_name fs dst_folder ''notesSlide''
      else Inr (fallback_loop fs dst_folder base ext fname 1))"

section \<open>The dependency copier\<close>

text \<open>
  The arguments of \<open>copy_part_with_dependencies\<close> that stay the same through the
  recursion: the two roots (absolute paths, as lists of components), the source manifest,
  and the working directory of the process, which \<open>os.path.relpath\<close> reads.
\<close>

record copier_env =
  src_root :: "string list"
  dst_root :: "string list"
  ct_src :: content_types
  cwd :: "string list"

text \<open>
  What the calls change: the file system, \<open>name_map\<close> and the destination manifest.
  \<open>st_copied\<close> is the trace of the part copies, one entry (source part path,
  destination part path) for each \<open>shutil.copyfile(src_part, dst_part)\<close>.
\<close>

record copier_state =
  st_fs :: filesys
  st_name_map :: "string \<rightharpoonup> string"
  st_ct_dst :: content_types
  st_copied :: "(string \<times> string) list"

text \<open>\<open>while targ_rel.startswith("../"): targ_rel = targ_rel[3:]\<close>\<close>

function strip_dotdot :: "string \<Rightarrow> string" where
  "strip_dotdot s = (if startswith s ''../'' then strip_dotdot (drop 3 s) else s)"
  by pat_completeness auto
termination
proof (relation "measure length")
  show "wf (measure length)" by simp
next
  fix s :: string
  assume "startswith s ''../''"
  then have "s \<noteq> []" by (auto simp: startswith_def)
  then show "(drop 3 s, s) \<in> measure length" by simp
qed

declare strip_dotdot.simps [simp del]

text \<open>
  The loop over the relationships of the copied \<open>.rels\<close> file.  \<open>recurse\<close> is the
  recursive call of \<open>copy_part_with_dependencies\<close>.  The result is the relationships
  with their targets rewritten, the flag \<open>changed\<close>, and the state.
\<close>

fun patch_rels ::
  "(string \<Rightarrow> copier_state \<Rightarrow> error + string \<times> copier_state) \<Rightarrow> copier_env \<Rightarrow> string \<Rightarrow> string \<Rightarrow>
   relationship list \<Rightarrow> copier_state \<Rightarrow> error + relationship list \<times> bool \<times> copier_state" where
  "patch_rels recurse env part_rel folder [] st = Inr ([], False, st)"
| "patch_rels recurse env part_rel folder (rel # rels) st =
     (case rel_Target rel of
        None \<Rightarrow>
          (case patch_rels recurse env part_rel folder rels st of
             Inl e \<Rightarrow> Inl e
           | Inr (rels', changed, st') \<Rightarrow> Inr (rel # rels', changed, st'))
      | Some target \<Rightarrow>
          if target \<noteq> [] \<and> startswith target ''../'' then
            (let source_part_dir = path_parent (Path part_rel);
                 targ_rel = replace_backslash (strip_dotdot (as_posix (joinpath source_part_dir target)))
             in case recurse targ_rel st of
                  Inl e \<Rightarrow> Inl e
                | Inr (new_dep_rel, st1) \<Rightarrow>
                    (case relpath (cwd env) new_dep_rel folder of
                       Inl e \<Rightarrow> Inl e
                     | Inr r \<Rightarrow>
                         let new_target = (if \<not> startswith (replace_backslash r) ''../''
                                           then ''../'' @ replace_backslash r
                                           else replace_backslash r)
                         in (case patch_rels recurse env part_rel folder rels st1 of
                               Inl e \<Rightarrow> Inl e
                             | Inr (rels', changed, st') \<Rightarrow>
                                 Inr (rel\<lparr>rel_Target := Some new_target\<rparr> # rels', True, st'))))
          else
            (case patch_rels recurse env part_rel folder rels st of
               Inl e \<Rightarrow> Inl e
             | Inr (rels', changed, st') \<Rightarrow> Inr (rel # rels', changed, st')))"

text \<open>The content-type step of the copier.\<close>

definition register_content_type ::
  "copier_env \<Rightarrow> string \<Rightarrow> string \<Rightarrow> content_types \<Rightarrow> error + content_types" where
  "register_content_type env folder dst_part_rel ct =
     (case map_of CT_OVERRIDES folder of
        Some t \<Rightarrow> Inr (add_content_type_override ct (''/ppt/'' @ dst_part_rel) t)
      | None \<Rightarrow> ensure_default_types_from_source ct (ct_src env))"

text \<open>
  The part of the body that copies and patches the relationships of the part
  (from \<open>rels_src_path = ...\<close> to the end).
\<close>

definition copy_rels ::
  "(string \<Rightarrow> copier_state \<Rightarrow> error + string \<times> copier_state) \<Rightarrow> copier_env \<Rightarrow> string \<Rightarrow> string \<Rightarrow>
   string \<Rightarrow> string \<Rightarrow> copier_state \<Rightarrow> error + string \<times> copier_state" where
  "copy_rels recurse env part_rel folder fname dst_part_rel st =
     (let rels_src_path = div_path (div_path (div_path (src_root env) folder) ''_rels'') (fname @ ''.rels'')
      in if path_exists (st_fs st) rels_src_path then
           (let rels_dst_folder = div_path (div_path (dst_root env) folder) ''_rels'';
                rels_dst_path = div_path rels_dst_folder (fname @ ''.rels'')
            in case ensure_dir (st_fs st) rels_dst_folder of
                 Inl e \<Rightarrow> Inl e
               | Inr fs1 \<Rightarrow>
                   (case copyfile fs1 rels_src_path rels_dst_path of
                      Inl e \<Rightarrow> Inl e
                    | Inr fs2 \<Rightarrow>
                        (case parse_xml fs2 rels_dst_path of
                           Inl e \<Rightarrow> Inl e
                         | Inr (original, rels) \<Rightarrow>
                             (case patch_rels recurse env part_rel folder rels (st\<lparr>st_fs := fs2\<rparr>) of
                                Inl e \<Rightarrow> Inl e
                              | Inr (rels', changed, st') \<Rightarrow>
                                  if changed then
                                    (case write_xml (st_fs st') original rels' rels_dst_path of
                                       Inl e \<Rightarrow> Inl e
                                     | Inr fs3 \<Rightarrow> Inr (dst_part_rel, st'\<lparr>st_fs := fs3\<rparr>))
                                  else Inr (dst_part_rel, st')))))
         else Inr (dst_part_rel, st))"

text \<open>
  \<open>copy_part_with_dependencies\<close>.  The first argument is the number of nested calls
  the interpreter still allows: a call beyond the recursion limit raises
  \<open>RecursionError\<close>.
\<close>

primrec copy_part_with_dependencies ::
  "nat \<Rightarrow> copier_env \<Rightarrow> string \<Rightarrow> copier_state \<Rightarrow> error + string \<times> copier_state" where
  "copy_part_with_dependencies 0 env part_rel st = Inl RecursionError"
| "copy_part_with_dependencies (Suc depth) env part_rel st =
     (case st_name_map st part_rel of
        Some mapped \<Rightarrow> Inr (mapped, st)
      | None \<Rightarrow>
          (let src_part = div_path (src_root env) part_rel
          in if \<not> path_exists (st_fs st) src_part then Inr (part_rel, st)
             else
               let folder = strip_slashes (as_posix (path_parent (Path part_rel)));
                   fname = path_name (Path part_rel);
                   base = fst (splitext fname);
                   ext = snd (splitext fname);
                   dst_folder = div_path (dst_root env) folder
               in case ensure_dir (st_fs st) dst_folder of
                    Inl e \<Rightarrow> Inl e
                  | Inr fs1 \<Rightarrow>
                      (case pick_new_filename fs1 dst_folder folder fname base ext of
                         Inl e \<Rightarrow> Inl e
                       | Inr new_fname \<Rightarrow>
                           let dst_part_rel = (if folder \<noteq> [] then folder @ ''/'' @ new_fname else new_fname);
                               dst_part = div_path (dst_root env) dst_part_rel
                           in (case copyfile fs1 src_part dst_part of
                                 Inl e \<Rightarrow> Inl e
                               | Inr fs2 \<Rightarrow>
                                   (case register_content_type env folder dst_part_rel (st_ct_dst st) of
                                      Inl e \<Rightarrow> Inl e
                                    | Inr ct' \<Rightarrow>
                                        copy_rels (copy_part_with_dependencies depth env) env part_rel folder
                                          (base @ ext) dst_part_rel
                                          (st\<lparr>st_fs := fs2,
                                               st_name_map := fun_upd (st_name_map st) part_rel (Some dst_part_rel),
                                               st_ct_dst := ct',
                                               st_copied := st_copied st @ [(part_rel, dst_part_rel)]\<rparr>))))))"

section \<open>One pass of the copier\<close>



section \<open>The merge\<close>

text \<open>
  A \<open>p:sldId\<close> element of a slide list: its attributes \<open>id\<close> and \<open>r:id\<close>.
\<close>

record sld_entry =
  sld_id :: "string option"
  sld_rid :: "string option"

text \<open>
  An input package: a presentation archive whose three manifest parts exist and parse.
  \<open>pk_entries\<close> are the entries of the archive (name, and the content of a file or
  \<open>None\<close> for a directory entry), \<open>pk_sldIdLst\<close> the \<open>p:sldId\<close> children of
  the slide list of \<open>ppt/presentation.xml\<close> (\<open>None\<close> when it has no slide list),
  \<open>pk_pres_rels\<close> the relationships of \<open>ppt/_rels/presentation.xml.rels\<close>,
  \<open>pk_ct\<close> the manifest \<open>[Content_Types].xml\<close>, and \<open>pk_stem\<close> the file name of
  the archive without its suffix.
\<close>

record package =
  pk_stem :: string
  pk_entries :: "(string \<times> content option) list"
  pk_sldIdLst :: "sld_entry list option"
  pk_pres_rels :: "relationship list"
  pk_ct :: content_types

text \<open>
  \<open>extract_pptx\<close> (\<open>ZipFile.extractall\<close>): empty components, \<open>.\<close> and
  \<open>..\<close> are dropped from an entry's name, the directories above it are created, and
  the file is written.
\<close>

fun extract_entries :: "filesys \<Rightarrow> string list \<Rightarrow> (string \<times> content option) list \<Rightarrow> error + filesys" where
  "extract_entries fs to_dir [] = Inr fs"
| "extract_entries fs to_dir ((arcname, c) # es) =
     (let comps = filter (\<lambda>x. x \<noteq> [] \<and> x \<noteq> ''.'' \<and> x \<noteq> ''..'') (split_slash arcname)
      in case c of
           None \<Rightarrow>
             (case mkdirs fs [] (to_dir @ comps) of
                Inl e \<Rightarrow> Inl e
              | Inr fs1 \<Rightarrow> extract_entries fs1 to_dir es)
         | Some bytes \<Rightarrow>
             (case mkdirs fs [] (to_dir @ butlast comps) of
                Inl e \<Rightarrow> Inl e
              | Inr fs1 \<Rightarrow>
                  (case write_target fs1 (to_dir @ comps) of
                     None \<Rightarrow> Inl OSError
                   | Some t \<Rightarrow> extract_entries (store fs1 t bytes) to_dir es)))"

definition extract_pptx :: "filesys \<Rightarrow> package \<Rightarrow> string list \<Rightarrow> error + filesys" where
  "extract_pptx fs pptx to_dir = extract_entries fs to_dir (pk_entries pptx)"

definition slide_rel_type :: string where
  "slide_rel_type = ''http://schemas.openxmlformats.org/officeDocument/2006/relationships/slide''"

text \<open>
  The dictionary \<open>id_to_target\<close>: for the relationships of type slide, \<open>Id\<close> to
  \<open>Target\<close> (either may be \<open>None\<close>); a later relationship with the same \<open>Id\<close>
  replaces an earlier one.
\<close>

fun id_to_target ::
  "(string option \<rightharpoonup> string option) \<Rightarrow> relationship list \<Rightarrow> (string option \<rightharpoonup> string option)" where
  "id_to_target m [] = m"
| "id_to_target m (rel # rels) =
     (if rel_Type rel = Some slide_rel_type
      then id_to_target (fun_upd m (rel_Id rel) (Some (rel_Target rel))) rels
      else id_to_target m rels)"

text \<open>
  The part path of a slide entry (\<open>target = id_to_target.get(rid)\<close>, then
  \<open>/ppt/\<close> is cut off); \<open>None\<close> when the loop skips the entry
  (\<open>if not target: continue\<close>).
\<close>

definition slide_part_rel :: "(string option \<rightharpoonup> string option) \<Rightarrow> sld_entry \<Rightarrow> string option" where
  "slide_part_rel idt sldId =
     (case idt (sld_rid sldId) of
        None \<Rightarrow> None
      | Some None \<Rightarrow> None
      | Some (Some target) \<Rightarrow>
          if target = [] then None
          else if startswith target ''/ppt/'' then Some (drop 5 target)
          else Some target)"

text \<open>\<open>current_max_sld_id\<close>: an absent \<open>id\<close> counts as 256, an unparsable one is skipped.\<close>

fun current_max_sld_id_loop :: "int \<Rightarrow> sld_entry list \<Rightarrow> int" where
  "current_max_sld_id_loop mx [] = mx"
| "current_max_sld_id_loop mx (el # els) =
     (case py_int (case sld_id el of None \<Rightarrow> ''256'' | Some s \<Rightarrow> s) of
        None \<Rightarrow> current_max_sld_id_loop mx els
      | Some v \<Rightarrow> current_max_sld_id_loop (max mx v) els)"

definition current_max_sld_id :: "sld_entry list \<Rightarrow> int" where
  "current_max_sld_id sldIdLst = current_max_sld_id_loop 256 sldIdLst"

text \<open>
  The state of the merge: the file system, the slide list and the relationships of the base
  presentation, the base manifest, the running \<open>max_sld_id\<close>, and the trace of the part
  copies made so far (number of the input, source part path, destination part path).
\<close>

record merge_state =
  m_fs :: filesys
  m_sldIdLst :: "sld_entry list"
  m_pres_rels :: "relationship list"
  m_ct :: content_types
  m_max_sld_id :: int
  m_copied :: "(nat \<times> string \<times> string) list"

text \<open>
  The state inside the loop over the slides of one source: the copier's state (with the
  \<open>name_map\<close> of this source) and the three things the loop body appends to.
\<close>

record pass_state =
  ps_copier :: copier_state
  ps_sldIdLst :: "sld_entry list"
  ps_pres_rels :: "relationship list"
  ps_max_sld_id :: int

text \<open>The body of the loop over the slide entries of a source.\<close>

definition merge_slide ::
  "nat \<Rightarrow> copier_env \<Rightarrow> (string option \<rightharpoonup> string option) \<Rightarrow> sld_entry \<Rightarrow> pass_state \<Rightarrow> error + pass_state" where
  "merge_slide limit env idt sldId ps =
     (case slide_part_rel idt sldId of
        None \<Rightarrow> Inr ps
      | Some part_rel \<Rightarrow>
          (case copy_part_with_dependencies limit env part_rel (ps_copier ps) of
             Inl e \<Rightarrow> Inl e
           | Inr (dst_part_rel, cs) \<Rightarrow>
               let new_rid = next_rel_id (ps_pres_rels ps);
                   rel_el = \<lparr>rel_Id = Some new_rid, rel_Type = Some slide_rel_type,
                             rel_Target = Some dst_part_rel\<rparr>;
                   max_sld_id = ps_max_sld_id ps + 1;
                   sld_el = \<lparr>sld_id = Some (str_int max_sld_id), sld_rid = Some new_rid\<rparr>;
                   ct1 = add_content_type_override (st_ct_dst cs) (''/ppt/'' @ dst_part_rel)
                           (the (map_of CT_OVERRIDES ''slides''))
               in (case ensure_default_types_from_source ct1 (ct_src env) of
                     Inl e \<Rightarrow> Inl e
                   | Inr ct2 \<Rightarrow>
                       Inr \<lparr>ps_copier = cs\<lparr>st_ct_dst := ct2\<rparr>,
                            ps_sldIdLst = ps_sldIdLst ps @ [sld_el],
                            ps_pres_rels = ps_pres_rels ps @ [rel_el],
                            ps_max_sld_id = max_sld_id\<rparr>)))"

fun merge_slides ::
  "nat \<Rightarrow> copier_env \<Rightarrow> (string option \<rightharpoonup> string option) \<Rightarrow> sld_entry list \<Rightarrow> pass_state \<Rightarrow> error + pass_state" where
  "merge_slides limit env idt [] ps = Inr ps"
| "merge_slides limit env idt (sldId # rest) ps =
     (case merge_slide limit env idt sldId ps of
        Inl e \<Rightarrow> Inl e
      | Inr ps' \<Rightarrow> merge_slides limit env idt rest ps')"

text \<open>
  The body of the loop over \<open>inputs[1:]\<close>; \<open>k\<close> is the number of the input in
  \<open>inputs\<close>, \<open>workdir\<close> the temporary directory.
\<close>

definition merge_source ::
  "nat \<Rightarrow> string list \<Rightarrow> string list \<Rightarrow> nat \<Rightarrow> package \<Rightarrow> merge_state \<Rightarrow> error + merge_state" where
  "merge_source limit wd workdir k src_file ms =
     (let src_dir = div_path workdir (''src_'' @ pk_stem src_file)
      in case extract_pptx (m_fs ms) src_file src_dir of
           Inl e \<Rightarrow> Inl e
         | Inr fs1 \<Rightarrow>
             (case pk_sldIdLst src_file of
                None \<Rightarrow> Inr (ms\<lparr>m_fs := fs1\<rparr>)
              | Some sldIdLst_src \<Rightarrow>
                  (case merge_slides limit
                          \<lparr>src_root = div_path src_dir ''ppt'',
                           dst_root = div_path (div_path workdir ''base'') ''ppt'',
                           ct_src = pk_ct src_file, cwd = wd\<rparr>
                          (id_to_target Map.empty (pk_pres_rels src_file))
                          sldIdLst_src
                          \<lparr>ps_copier = \<lparr>st_fs = fs1, st_name_map = Map.empty,
                                         st_ct_dst = m_ct ms, st_copied = []\<rparr>,
                           ps_sldIdLst = m_sldIdLst ms,
                           ps_pres_rels = m_pres_rels ms,
                           ps_max_sld_id = m_max_sld_id ms\<rparr> of
                     Inl e \<Rightarrow> Inl e
                   | Inr ps \<Rightarrow>
                       Inr \<lparr>m_fs = st_fs (ps_copier ps),
                            m_sldIdLst = ps_sldIdLst ps,
                            m_pres_rels = ps_pres_rels ps,
                            m_ct = st_ct_dst (ps_copier ps),
                            m_max_sld_id = ps_max_sld_id ps,
                            m_copied = m_copied ms @ map (\<lambda>c. (k, c)) (st_copied (ps_copier ps))\<rparr>)))"

fun merge_sources ::
  "nat \<Rightarrow> string list \<Rightarrow> string list \<Rightarrow> nat \<Rightarrow> package list \<Rightarrow> merge_state \<Rightarrow> error + merge_state" where
  "merge_sources limit wd workdir k [] ms = Inr ms"
| "merge_sources limit wd workdir k (src_file # rest) ms =
     (case merge_source limit wd workdir k src_file ms of
        Inl e \<Rightarrow> Inl e
      | Inr ms' \<Rightarrow> merge_sources limit wd workdir (Suc k) rest ms')"

text \<open>
  \<open>merge_presentations\<close>, up to the state that the three final \<open>write_xml\<close> calls and
  \<open>zip_dir\<close> write out.  \<open>limit\<close> is the number of nested calls of the copier that the
  interpreter allows, \<open>wd\<close> the working directory of the process, \<open>workdir\<close> the
  temporary directory and \<open>fs\<close> the file system at the start.
\<close>

definition merge_presentations ::
  "nat \<Rightarrow> string list \<Rightarrow> string list \<Rightarrow> filesys \<Rightarrow> package list \<Rightarrow> error + merge_state" where
  "merge_presentations limit wd workdir fs inputs =
     (case inputs of
        [] \<Rightarrow> Inl ValueError
      | base # extras \<Rightarrow>
          (case extract_pptx fs base (div_path workdir ''base'') of
             Inl e \<Rightarrow> Inl e
           | Inr fs1 \<Rightarrow>
               (let sldIdLst = (case pk_sldIdLst base of None \<Rightarrow> [] | Some l \<Rightarrow> l)
                in merge_sources limit wd workdir 1 extras
                     \<lparr>m_fs = fs1, m_sldIdLst = sldIdLst, m_pres_rels = pk_pres_rels base,
                      m_ct = pk_ct base, m_max_sld_id = current_max_sld_id sldIdLst,
                      m_copied = []\<rparr>)))"

section \<open>What the merge appends\<close>

text \<open>The slide list of a package (empty when the presentation has none).\<close>

definition slide_list :: "package \<Rightarrow> sld_entry list" where
  "slide_list base = (case pk_sldIdLst base of None \<Rightarrow> [] | Some l \<Rightarrow> l)"

text \<open>
  The part paths of the slide entries of a source that the loop does not skip, in the order
  of its slide list; \<open>slide_requests k\<close> lists them for the inputs numbered from \<open>k\<close>,
  each with the number of its input.
\<close>

definition slide_parts :: "package \<Rightarrow> string list" where
  "slide_parts src_file =
     (case pk_sldIdLst src_file of
        None \<Rightarrow> []
      | Some l \<Rightarrow> List.map_filter (slide_part_rel (id_to_target Map.empty (pk_pres_rels src_file))) l)"

fun slide_requests :: "nat \<Rightarrow> package list \<Rightarrow> (nat \<times> string) list" where
  "slide_requests k [] = []"
| "slide_requests k (src_file # rest) =
     map (\<lambda>p. (k, p)) (slide_parts src_file) @ slide_requests (Suc k) rest"

text \<open>The numeric id of a slide entry, when it has an \<open>id\<close> that \<open>int()\<close> parses.\<close>

definition sld_id_value :: "sld_entry \<Rightarrow> int option" where
  "sld_id_value el = (case sld_id el of None \<Rightarrow> None | Some s \<Rightarrow> py_int s)"

text \<open>
  From position \<open>n\<close> on, every entry has a numeric id, greater than every numeric id
  before it in the list.
\<close>

definition appended_ids_increase :: "nat \<Rightarrow> sld_entry list \<Rightarrow> bool" where
  "appended_ids_increase n xs \<longleftrightarrow>
     (\<forall>j. n \<le> j \<and> j < length xs \<longrightarrow>
        (\<exists>b. sld_id_value (xs ! j) = Some b \<and>
             (\<forall>i a. i < j \<and> sld_id_value (xs ! i) = Some a \<longrightarrow> a < b)))"




text \<open>No numeric id of the list exceeds \<open>mx\<close>.\<close>

definition ids_bounded :: "int \<Rightarrow> sld_entry list \<Rightarrow> bool" where
  "ids_bounded mx xs \<longleftrightarrow> (\<forall>el \<in> set xs. \<forall>v. sld_id_value el = Some v \<longrightarrow> v \<le> mx)"

definition ids_ok :: "nat \<Rightarrow> int \<Rightarrow> sld_entry list \<Rightarrow> bool" where
  "ids_ok n mx xs \<longleftrightarrow> ids_bounded mx xs \<and> appended_ids_increase n xs"

section \<open>Example packages\<close>

text \<open>
  A working directory \<open>/w\<close> with a base package under \<open>/w/base\<close> (one slide, one
  layout) and a source package under \<open>/w/src_b\<close>: a slide whose relationships point to a
  layout, an image and an external address.
\<close>

definition rel_to :: "string \<Rightarrow> string \<Rightarrow> relationship" where
  "rel_to rid target = \<lparr>rel_Id = Some rid, rel_Type = None, rel_Target = Some target\<rparr>"

definition ex_fs :: filesys where
  "ex_fs =
     \<lparr>fs_files =
        [([''w'', ''src_b'', ''ppt'', ''slides'', ''slide1.xml''], \<lparr>payload = ''S1'', xml_rels = Some []\<rparr>),
         ([''w'', ''src_b'', ''ppt'', ''slides'', ''_rels'', ''slide1.xml.rels''],
            \<lparr>payload = ''S1R'',
             xml_rels = Some [rel_to ''rId1'' ''../slideLayouts/slideLayout1.xml'',
                              rel_to ''rId2'' ''../media/image1.png'',
                              rel_to ''rId3'' ''http://example.org/''] \<rparr>),
         ([''w'', ''src_b'', ''ppt'', ''slideLayouts'', ''slideLayout1.xml''], \<lparr>payload = ''L1'', xml_rels = Some []\<rparr>),
         ([''w'', ''src_b'', ''ppt'', ''media'', ''image1.png''], \<lparr>payload = ''IMG'', xml_rels = None\<rparr>),
         ([''w'', ''base'', ''ppt'', ''slides'', ''slide1.xml''], \<lparr>payload = ''B1'', xml_rels = Some []\<rparr>),
         ([''w'', ''base'', ''ppt'', ''slideLayouts'', ''slideLayout1.xml''], \<lparr>payload = ''BL1'', xml_rels = Some []\<rparr>)],
      fs_dirs =
        [[''w''], [''w'', ''src_b''], [''w'', ''src_b'', ''ppt''], [''w'', ''src_b'', ''ppt'', ''slides''],
         [''w'', ''src_b'', ''ppt'', ''slides'', ''_rels''], [''w'', ''src_b'', ''ppt'', ''slideLayouts''],
         [''w'', ''src_b'', ''ppt'', ''media''],
         [''w'', ''base''], [''w'', ''base'', ''ppt''], [''w'', ''base'', ''ppt'', ''slides''],
         [''w'', ''base'', ''ppt'', ''slideLayouts'']]\<rparr>"



text \<open>
  A source package whose layout and master refer to each other, as the layouts and masters
  of a presentation do: slide 1 uses layout 1, layout 1 uses master 1, and master 1 lists
  layout 1.  The base package under \<open>/w/base\<close> has no parts yet.
\<close>

definition ex_cyclic_fs :: filesys where
  "ex_cyclic_fs =
     \<lparr>fs_files =
        [([''w'', ''src_c'', ''ppt'', ''slides'', ''slide1.xml''], \<lparr>payload = ''S1'', xml_rels = Some []\<rparr>),
         ([''w'', ''src_c'', ''ppt'', ''slides'', ''_rels'', ''slide1.xml.rels''],
            \<lparr>payload = ''S1R'', xml_rels = Some [rel_to ''rId1'' ''../slideLayouts/slideLayout1.xml'']\<rparr>),
         ([''w'', ''src_c'', ''ppt'', ''slideLayouts'', ''slideLayout1.xml''], \<lparr>payload = ''L1'', xml_rels = Some []\<rparr>),
         ([''w'', ''src_c'', ''ppt'', ''slideLayouts'', ''_rels'', ''slideLayout1.xml.rels''],
            \<lparr>payload = ''L1R'', xml_rels = Some [rel_to ''rId1'' ''../slideMasters/slideMaster1.xml'']\<rparr>),
         ([''w'', ''src_c'', ''ppt'', ''slideMasters'', ''slideMaster1.xml''], \<lparr>payload = ''M1'', xml_rels = Some []\<rparr>),
         ([''w'', ''src_c'', ''ppt'', ''slideMasters'', ''_rels'', ''slideMaster1.xml.rels''],
            \<lparr>payload = ''M1R'', xml_rels = Some [rel_to ''rId1'' ''../slideLayouts/slideLayout1.xml'']\<rparr>)],
      fs_dirs =
        [[''w''], [''w'', ''src_c''], [''w'', ''src_c'', ''ppt''],
         [''w'', ''src_c'', ''ppt'', ''slides''], [''w'', ''src_c'', ''ppt'', ''slides'', ''_rels''],
         [''w'', ''src_c'', ''ppt'', ''slideLayouts''], [''w'', ''src_c'', ''ppt'', ''slideLayouts'', ''_rels''],
         [''w'', ''src_c'', ''ppt'', ''slideMasters''], [''w'', ''src_c'', ''ppt'', ''slideMasters'', ''_rels''],
         [''w'', ''base''], [''w'', ''base'', ''ppt'']]\<rparr>"

definition ex_cyclic_env :: copier_env where
  "ex_cyclic_env =
     \<lparr>src_root = [''w'', ''src_c'', ''ppt''], dst_root = [''w'', ''base'', ''ppt''],
      ct_src = \<lparr>ct_defaults = [(Some ''xml'', Some ''application/xml'')], ct_overrides = []\<rparr>,
      cwd = [''home'']\<rparr>"

definition ex_cyclic_st :: copier_state where
  "ex_cyclic_st =
     \<lparr>st_fs = ex_cyclic_fs, st_name_map = Map.empty,
      st_ct_dst = \<lparr>ct_defaults = [(Some ''xml'', Some ''application/xml'')], ct_overrides = []\<rparr>,
      st_copied = []\<rparr>"

text \<open>
  A source package in which slide 1 refers to slide 2 of its own folder by the target
  \<open>../slides/slide2.xml\<close>.
\<close>

definition ex_same_fs :: filesys where
  "ex_same_fs =
     \<lparr>fs_files =
        [([''w'', ''src_d'', ''ppt'', ''slides'', ''slide1.xml''], \<lparr>payload = ''S1'', xml_rels = Some []\<rparr>),
         ([''w'', ''src_d'', ''ppt'', ''slides'', ''_rels'', ''slide1.xml.rels''],
            \<lparr>payload = ''S1R'', xml_rels = Some [rel_to ''rId1'' ''../slides/slide2.xml'']\<rparr>),
         ([''w'', ''src_d'', ''ppt'', ''slides'', ''slide2.xml''], \<lparr>payload = ''S2'', xml_rels = Some []\<rparr>)],
      fs_dirs =
        [[''w''], [''w'', ''src_d''], [''w'', ''src_d'', ''ppt''],
         [''w'', ''src_d'', ''ppt'', ''slides''], [''w'', ''src_d'', ''ppt'', ''slides'', ''_rels''],
         [''w'', ''base''], [''w'', ''base'', ''ppt'']]\<rparr>"

definition ex_same_env :: copier_env where
  "ex_same_env =
     \<lparr>src_root = [''w'', ''src_d'', ''ppt''], dst_root = [''w'', ''base'', ''ppt''],
      ct_src = \<lparr>ct_defaults = [(Some ''xml'', Some ''application/xml'')], ct_overrides = []\<rparr>,
      cwd = [''home'']\<rparr>"

definition ex_same_st :: copier_state where
  "ex_same_st =
     \<lparr>st_fs = ex_same_fs, st_name_map = Map.empty,
      st_ct_dst = \<lparr>ct_defaults = [(Some ''xml'', Some ''application/xml'')], ct_overrides = []\<rparr>,
      st_copied = []\<rparr>"

text \<open>
  Packages for the merge: a base deck with one slide; a deck with two slides listed in the
  order slide 2, slide 1, with ids that do not increase; a deck whose slide list names a
  relationship that its relationships part does not hold; and a deck whose two slides were
  reordered, so that the ids in its slide list decrease.
\<close>

definition slide_rel_to :: "string \<Rightarrow> string \<Rightarrow> relationship" where
  "slide_rel_to rid target = \<lparr>rel_Id = Some rid, rel_Type = Some slide_rel_type, rel_Target = Some target\<rparr>"

definition ex_manifest :: content_types where
  "ex_manifest = \<lparr>ct_defaults = [(Some ''xml'', Some ''application/xml'')], ct_overrides = []\<rparr>"

definition ex_tmp_fs :: filesys where
  "ex_tmp_fs = \<lparr>fs_files = [], fs_dirs = [[''w'']]\<rparr>"

definition ex_pk_base :: package where
  "ex_pk_base =
     \<lparr>pk_stem = ''a'',
      pk_entries = [(''ppt/slides/slide1.xml'', Some \<lparr>payload = ''A1'', xml_rels = Some []\<rparr>)],
      pk_sldIdLst = Some [\<lparr>sld_id = Some ''256'', sld_rid = Some ''rId1''\<rparr>],
      pk_pres_rels = [slide_rel_to ''rId1'' ''slides/slide1.xml''],
      pk_ct = ex_manifest\<rparr>"

definition ex_pk_extra :: package where
  "ex_pk_extra =
     \<lparr>pk_stem = ''b'',
      pk_entries = [(''ppt/slides/slide1.xml'', Some \<lparr>payload = ''B1'', xml_rels = Some []\<rparr>),
                    (''ppt/slides/slide2.xml'', Some \<lparr>payload = ''B2'', xml_rels = Some []\<rparr>)],
      pk_sldIdLst = Some [\<lparr>sld_id = Some ''300'', sld_rid = Some ''rId2''\<rparr>,
                          \<lparr>sld_id = Some ''256'', sld_rid = Some ''rId1''\<rparr>],
      pk_pres_rels = [slide_rel_to ''rId1'' ''slides/slide1.xml'',
                      slide_rel_to ''rId2'' ''/ppt/slides/slide2.xml''],
      pk_ct = ex_manifest\<rparr>"

definition ex_pk_dangling :: package where
  "ex_pk_dangling =
     \<lparr>pk_stem = ''c'',
      pk_entries = [(''ppt/slides/slide1.xml'', Some \<lparr>payload = ''C1'', xml_rels = Some []\<rparr>)],
      pk_sldIdLst = Some [\<lparr>sld_id = Some ''256'', sld_rid = Some ''rId7''\<rparr>],
      pk_pres_rels = [slide_rel_to ''rId1'' ''slides/slide1.xml''],
      pk_ct = ex_manifest\<rparr>"

definition ex_pk_reordered :: package where
  "ex_pk_reordered =
     \<lparr>pk_stem = ''d'',
      pk_entries = [(''ppt/slides/slide1.xml'', Some \<lparr>payload = ''D1'', xml_rels = Some []\<rparr>),
                    (''ppt/slides/slide2.xml'', Some \<lparr>payload = ''D2'', xml_rels = Some []\<rparr>)],
      pk_sldIdLst = Some [\<lparr>sld_id = Some ''258'', sld_rid = Some ''rId2''\<rparr>,
                          \<lparr>sld_id = Some ''257'', sld_rid = Some ''rId1''\<rparr>],
      pk_pres_rels = [slide_rel_to ''rId1'' ''slides/slide1.xml'',
                      slide_rel_to ''rId2'' ''slides/slide2.xml''],
      pk_ct = ex_manifest\<rparr>"

section \<open>next\_rel\_id\<close>

lemma collect_rids_mem:
  "rel \<in> set rels \<Longrightarrow> rel_Id rel = Some rid \<Longrightarrow> startswith rid ''rId'' \<Longrightarrow>
   py_int (drop 3 rid) = Some v \<Longrightarrow> v \<in> set (collect_rids rels)"
  by (induction rels) (auto simp: startswith_def split: option.splits)

lemma collect_rids_set:
  "set (collect_rids rels) =
     {v. \<exists>rel \<in> set rels. \<exists>rid. rel_Id rel = Some rid \<and> startswith rid ''rId'' \<and>
           py_int (drop 3 rid) = Some v}"
proof (induction rels)
  case Nil
  show ?case by simp
next
  case (Cons rel rels)
  show ?case
  proof (cases "rel_Id rel")
    case None
    with Cons show ?thesis by auto
  next
    case (Some rid)
    with Cons show ?thesis
      by (cases "py_int (drop 3 rid)") (auto simp: startswith_def)
  qed
qed

lemma next_rel_id_not_present:
  assumes mem: "rel \<in> set rels"
  shows "rel_Id rel \<noteq> Some (next_rel_id rels)"
proof
  assume eq: "rel_Id rel = Some (next_rel_id rels)"
  define m where "m = (if collect_rids rels \<noteq> [] then Max (set (collect_rids rels)) else 0)"
  have nid: "next_rel_id rels = ''rId'' @ str_int (m + 1)"
    by (simp add: next_rel_id_def m_def)
  have "startswith (next_rel_id rels) ''rId''" by (simp add: nid startswith_def)
  moreover have "py_int (drop 3 (next_rel_id rels)) = Some (m + 1)"
    by (simp add: nid py_int_str_int)
  ultimately have in_rids: "m + 1 \<in> set (collect_rids rels)"
    using collect_rids_mem [OF mem eq] by simp
  then have ne: "collect_rids rels \<noteq> []" by auto
  with in_rids have "m + 1 \<le> Max (set (collect_rids rels))" by (intro Max_ge) auto
  moreover have "m = Max (set (collect_rids rels))" using ne by (simp add: m_def)
  ultimately show False by simp
qed

text \<open>
  Claim C10, as the code has it.  The identifier returned by \<open>next_rel_id\<close> differs from the
  \<open>Id\<close> of every relationship of the set, and it is \<open>rId\<close> followed by one plus the
  maximum of the integers that \<open>int()\<close> parses from the text after a leading \<open>rId\<close>
  (0 when there is none).  \<open>int()\<close> accepts more than a run of digits: a sign,
  surrounding whitespace and single underscores between digits.
\<close>

theorem next_rel_id_fresh:
  "(\<forall>rel \<in> set rels. rel_Id rel \<noteq> Some (next_rel_id rels)) \<and>
   next_rel_id rels =
     ''rId'' @ str_int
       ((let parsed = {v. \<exists>rel \<in> set rels. \<exists>rid. rel_Id rel = Some rid \<and>
                          startswith rid ''rId'' \<and> py_int (drop 3 rid) = Some v}
         in if parsed \<noteq> {} then Max parsed else 0) + 1)"
proof
  show "\<forall>rel \<in> set rels. rel_Id rel \<noteq> Some (next_rel_id rels)"
    using next_rel_id_not_present by blast
next
  have "(collect_rids rels \<noteq> []) = (set (collect_rids rels) \<noteq> {})" by simp
  then show "next_rel_id rels =
     ''rId'' @ str_int
       ((let parsed = {v. \<exists>rel \<in> set rels. \<exists>rid. rel_Id rel = Some rid \<and>
                          startswith rid ''rId'' \<and> py_int (drop 3 rid) = Some v}
         in if parsed \<noteq> {} then Max parsed else 0) + 1)"
    unfolding next_rel_id_def Let_def collect_rids_set [symmetric] by simp
qed

theorem next_rel_id_fresh_witness:
  "rel_Id \<lparr>rel_Id = Some ''rId5'', rel_Type = None, rel_Target = None\<rparr> \<noteq>
     Some (next_rel_id [\<lparr>rel_Id = Some ''rId1'', rel_Type = None, rel_Target = None\<rparr>,
                        \<lparr>rel_Id = Some ''rId5'', rel_Type = None, rel_Target = None\<rparr>]) \<and>
   next_rel_id [\<lparr>rel_Id = Some ''rId1'', rel_Type = None, rel_Target = None\<rparr>,
                \<lparr>rel_Id = Some ''rId5'', rel_Type = None, rel_Target = None\<rparr>] = ''rId6''"
proof -
  have e: "next_rel_id [\<lparr>rel_Id = Some ''rId1'', rel_Type = None, rel_Target = None\<rparr>,
                \<lparr>rel_Id = Some ''rId5'', rel_Type = None, rel_Target = None\<rparr>] = ''rId6''"
    by code_simp
  have "\<forall>rel \<in> set [\<lparr>rel_Id = Some ''rId1'', rel_Type = None, rel_Target = None\<rparr>,
                \<lparr>rel_Id = Some ''rId5'', rel_Type = None, rel_Target = None\<rparr>].
          rel_Id rel \<noteq> Some (next_rel_id [\<lparr>rel_Id = Some ''rId1'', rel_Type = None, rel_Target = None\<rparr>,
                \<lparr>rel_Id = Some ''rId5'', rel_Type = None, rel_Target = None\<rparr>])"
    using next_rel_id_fresh [of "[\<lparr>rel_Id = Some ''rId1'', rel_Type = None, rel_Target = None\<rparr>,
                \<lparr>rel_Id = Some ''rId5'', rel_Type = None, rel_Target = None\<rparr>]"]
    by blast
  then show ?thesis using e by simp
qed

text \<open>
  The claim as written fails for an identifier that is not \<open>rId\<close> followed by digits only
  and that \<open>int()\<close> parses all the same: \<open>rId+7\<close> counts as 7 in the code, and is
  absent under the reading "of the form rId<digits>".
\<close>

theorem next_rel_id_signed_counterexample:
  "next_rel_id [\<lparr>rel_Id = Some ''rId+7'', rel_Type = None, rel_Target = None\<rparr>] = ''rId8'' \<and>
   digit_form_next_rel_id [\<lparr>rel_Id = Some ''rId+7'', rel_Type = None, rel_Target = None\<rparr>] = ''rId1''"
  by code_simp

section \<open>ensure\_default\_types\_from\_source\<close>

lemma merge_defaults_loop_appends:
  "merge_defaults_loop have d s = Inr d' \<Longrightarrow>
   \<exists>new. d' = d @ new \<and> distinct new \<and> set new = set s - have"
proof (induction s arbitrary: "have" d)
  case Nil
  then show ?case by simp
next
  case (Cons pair rest)
  show ?case
  proof (cases "pair \<in> have")
    case True
    with Cons.prems have "merge_defaults_loop have d rest = Inr d'" by simp
    from Cons.IH [OF this] True show ?thesis by auto
  next
    case False
    with Cons.prems obtain e t where p: "pair = (Some e, Some t)"
      and r: "merge_defaults_loop (insert pair have) (d @ [pair]) rest = Inr d'"
      by (cases pair) (auto split: option.splits)
    from Cons.IH [OF r] obtain new where
      n: "d' = (d @ [pair]) @ new" "distinct new" "set new = set rest - insert pair have"
      by blast
    have "d' = d @ (pair # new)" using n(1) by simp
    moreover have "distinct (pair # new)" using n(2,3) by auto
    moreover have "set (pair # new) = set (pair # rest) - have" using n(3) False by auto
    ultimately show ?thesis by blast
  qed
qed

text \<open>
  Claim C4, as the code has it.  \<open>ensure_default_types_from_source\<close> keeps every
  \<open>Default\<close> entry of the destination, in place and unchanged, and appends after them,
  once each, exactly the (extension, type) pairs of the source that the destination did not
  hold as a pair.  The match is on the pair: a source pair whose extension the destination
  maps to another type is appended too.
\<close>

theorem ensure_default_types_additive:
  assumes "ensure_default_types_from_source dest_ct src_ct = Inr ct'"
  shows "\<exists>new. ct_defaults ct' = ct_defaults dest_ct @ new \<and> distinct new \<and>
               set new = set (ct_defaults src_ct) - set (ct_defaults dest_ct) \<and>
               ct_overrides ct' = ct_overrides dest_ct"
proof -
  from assms obtain d where
    l: "merge_defaults_loop (set (ct_defaults dest_ct)) (ct_defaults dest_ct) (ct_defaults src_ct) = Inr d"
    and c: "ct' = dest_ct\<lparr>ct_defaults := d\<rparr>"
    by (auto simp: ensure_default_types_from_source_def split: sum.splits)
  from merge_defaults_loop_appends [OF l] c show ?thesis by auto
qed

theorem ensure_default_types_additive_witness:
  "ensure_default_types_from_source
     \<lparr>ct_defaults = [(Some ''xml'', Some ''application/xml'')], ct_overrides = []\<rparr>
     \<lparr>ct_defaults = [(Some ''xml'', Some ''application/xml''), (Some ''png'', Some ''image/png'')],
      ct_overrides = []\<rparr>
   = Inr \<lparr>ct_defaults = [(Some ''xml'', Some ''application/xml''), (Some ''png'', Some ''image/png'')],
          ct_overrides = []\<rparr> \<and>
   (\<exists>new. [(Some ''xml'', Some ''application/xml''), (Some ''png'', Some ''image/png'')]
            = [(Some ''xml'', Some ''application/xml'')] @ new \<and> distinct new \<and>
          set new = {(Some ''png'', Some ''image/png'')})"
proof -
  have e: "ensure_default_types_from_source
     \<lparr>ct_defaults = [(Some ''xml'', Some ''application/xml'')], ct_overrides = []\<rparr>
     \<lparr>ct_defaults = [(Some ''xml'', Some ''application/xml''), (Some ''png'', Some ''image/png'')],
      ct_overrides = []\<rparr>
   = Inr \<lparr>ct_defaults = [(Some ''xml'', Some ''application/xml''), (Some ''png'', Some ''image/png'')],
          ct_overrides = []\<rparr>"
    by (simp add: ensure_default_types_from_source_def)
  from ensure_default_types_additive [OF e] e show ?thesis by auto
qed

text \<open>
  The claim as written fails: the destination maps \<open>png\<close> to \<open>image/png\<close>, the
  source maps it to \<open>image/x-png\<close>, and the source's pair is added, so that the extension
  has two \<open>Default\<close> entries with different types afterwards.
\<close>

theorem ensure_default_types_differing_type_counterexample:
  "ensure_default_types_from_source
     \<lparr>ct_defaults = [(Some ''png'', Some ''image/png'')], ct_overrides = []\<rparr>
     \<lparr>ct_defaults = [(Some ''png'', Some ''image/x-png'')], ct_overrides = []\<rparr>
   = Inr \<lparr>ct_defaults = [(Some ''png'', Some ''image/png''), (Some ''png'', Some ''image/x-png'')],
          ct_overrides = []\<rparr>"
  by (simp add: ensure_default_types_from_source_def)

section \<open>The name allocator\<close>

lemma py_int_digits:
  assumes "ds \<noteq> []" "\<forall>c \<in> set ds. is_digit c"
  shows "py_int ds = Some (int (digits_value 0 ds))"
proof -
  from assms obtain c cs where cs: "ds = c # cs" by (cases ds) auto
  have "strip_space ds = ds"
    using assms by (intro strip_space_id) (auto dest: is_digit_not_space)
  moreover have "scan_digits False 0 ds = Some (digits_value 0 ds)"
    using scan_digits_append [of ds False 0 "[]"] assms by simp
  moreover have "is_digit c" using assms cs by simp
  ultimately show ?thesis using cs is_digit_not_sign [of c]
    by (simp add: py_int_def del: scan_digits.simps)
qed

lemma first_digit_run_digits: "\<forall>c \<in> set (first_digit_run nm). is_digit c"
  by (auto simp: first_digit_run_def dest: set_takeWhileD)

lemma finite_indices: "finite (indices names prefix suffix)"
proof -
  have "indices names prefix suffix \<subseteq> (\<lambda>nm. the (py_int (first_digit_run nm))) ` set names"
    by (force simp: indices_def)
  then show ?thesis by (rule finite_subset) simp
qed

lemma indices_Cons:
  "indices (nm # names) prefix suffix =
     (if startswith nm prefix \<and> endswith nm suffix \<and> first_digit_run nm \<noteq> []
      then insert (int (digits_value 0 (first_digit_run nm))) (indices names prefix suffix)
      else indices names prefix suffix)"
  using py_int_digits [OF _ first_digit_run_digits, of nm]
  by (auto simp: indices_def)

lemma max_index_loop_Max:
  "max_index_loop mx names prefix suffix = Inr (Max (insert mx (indices names prefix suffix)))"
proof (induction names arbitrary: mx)
  case Nil
  show ?case by (simp add: indices_def)
next
  case (Cons nm names)
  show ?case
  proof (cases "startswith nm prefix \<and> endswith nm suffix \<and> first_digit_run nm \<noteq> []")
    case True
    let ?v = "int (digits_value 0 (first_digit_run nm))"
    have p: "py_int (first_digit_run nm) = Some ?v"
      using True py_int_digits [OF _ first_digit_run_digits, of nm] by simp
    have "Max (insert (max mx ?v) (indices names prefix suffix))
            = Max (insert mx (insert ?v (indices names prefix suffix)))"
      using finite_indices [of names prefix suffix]
      by (cases "indices names prefix suffix = {}") (simp_all add: max.assoc)
    with True p Cons show ?thesis by (simp add: indices_Cons Let_def)
  next
    case False
    with Cons show ?thesis by (auto simp add: indices_Cons Let_def)
  qed
qed


lemma dropWhile_hd_id: "xs \<noteq> [] \<Longrightarrow> \<not> P (hd xs) \<Longrightarrow> dropWhile P xs = xs"
  by (cases xs) auto

lemma first_digit_run_numbered:
  assumes "\<forall>c \<in> set prefix. \<not> is_digit c"
  shows "first_digit_run (prefix @ str_nat n @ ''.xml'') = str_nat n"
proof -
  have "dropWhile (\<lambda>c. \<not> is_digit c) (prefix @ str_nat n @ ''.xml'')
          = dropWhile (\<lambda>c. \<not> is_digit c) (str_nat n @ ''.xml'')"
    using assms by (simp add: dropWhile_append)
  also have "\<dots> = str_nat n @ ''.xml''"
    using str_nat_hd_last(1) [of n] str_nat_not_Nil [of n]
    by (intro dropWhile_hd_id) auto
  finally have d: "dropWhile (\<lambda>c. \<not> is_digit c) (prefix @ str_nat n @ ''.xml'') = str_nat n @ ''.xml''" .
  have "\<not> is_digit (CHR ''.'')" by (simp add: is_digit_def)
  then have "takeWhile is_digit (str_nat n @ ''.xml'') = str_nat n"
    using str_nat_all_digits [of n] by (simp add: takeWhile_append)
  with d show ?thesis by (simp add: first_digit_run_def)
qed

lemma numbered_not_listed:
  assumes nd: "\<forall>c \<in> set prefix. \<not> is_digit c"
  shows "prefix @ str_int (Max (insert 0 (indices names prefix ''.xml'')) + 1) @ ''.xml'' \<notin> set names"
proof
  let ?mx = "Max (insert 0 (indices names prefix ''.xml''))"
  let ?nm = "prefix @ str_int (?mx + 1) @ ''.xml''"
  assume mem: "?nm \<in> set names"
  have fin: "finite (insert 0 (indices names prefix ''.xml''))" using finite_indices by simp
  have ge: "0 \<le> ?mx" using fin by (intro Max_ge) auto
  then have si: "str_int (?mx + 1) = str_nat (nat (?mx + 1))" by (simp add: str_int_def)
  have run: "first_digit_run ?nm = str_nat (nat (?mx + 1))"
    unfolding si by (rule first_digit_run_numbered [OF nd])
  have "py_int (first_digit_run ?nm) = Some (?mx + 1)"
    using py_int_str_int [of "?mx + 1"] run si by simp
  moreover have "startswith ?nm prefix" by (simp add: startswith_def)
  moreover have "endswith ?nm ''.xml''" by (simp add: endswith_def)
  moreover have "first_digit_run ?nm \<noteq> []" using run str_nat_not_Nil by simp
  ultimately have "?mx + 1 \<in> indices names prefix ''.xml''"
    using mem unfolding indices_def by blast
  then have "?mx + 1 \<le> ?mx" using fin by (intro Max_ge) auto
  then show False by simp
qed

lemma walk_append:
  "walk fs cur (xs @ ys) = (case walk fs cur xs of None \<Rightarrow> None | Some r \<Rightarrow> walk fs r ys)"
  by (induction xs arbitrary: cur) (auto simp: Let_def)

lemma in_listdir:
  "c \<in> set (listdir fs d) \<longleftrightarrow> d @ [c] \<in> fst ` set (fs_files fs) \<union> set (fs_dirs fs)"
proof
  assume "c \<in> set (listdir fs d)"
  then obtain p where p: "p \<in> fst ` set (fs_files fs) \<union> set (fs_dirs fs)" "p \<noteq> []" "butlast p = d" "last p = c"
    by (auto simp: listdir_def)
  then have "p = d @ [c]" by (metis append_butlast_last_id)
  with p show "d @ [c] \<in> fst ` set (fs_files fs) \<union> set (fs_dirs fs)" by simp
next
  assume "d @ [c] \<in> fst ` set (fs_files fs) \<union> set (fs_dirs fs)"
  then show "c \<in> set (listdir fs d)"
    by (force simp: listdir_def image_iff intro!: bexI [where x = "d @ [c]"])
qed

lemma exists_node_iff:
  "exists_node fs (d @ [c]) \<longleftrightarrow> d @ [c] \<in> fst ` set (fs_files fs) \<union> set (fs_dirs fs)"
  by (auto simp: exists_node_def is_dir_def is_file_def map_of_eq_None_iff)

lemma valid_name_parts: "valid_name c \<Longrightarrow> path_anchor c = [] \<and> path_parts c = [c]"
  by (cases c) (auto simp: valid_name_def path_anchor_def path_parts_def split_slash_no_slash)

lemma listed_valid_name:
  assumes "valid_names fs" "c \<in> set (listdir fs d)"
  shows "valid_name c"
proof -
  from assms(2) have "d @ [c] \<in> fst ` set (fs_files fs) \<union> set (fs_dirs fs)" by (simp add: in_listdir)
  with assms(1) have "list_all valid_name (d @ [c])"
    by (auto simp: valid_names_def list_all_iff)
  then show ?thesis by simp
qed

lemma path_exists_child:
  assumes "walk fs [] dst_folder = Some d" "is_dir fs d" "valid_name c"
  shows "path_exists fs (div_path dst_folder c) \<longleftrightarrow> c \<in> set (listdir fs d)"
  using assms valid_name_parts [OF assms(3)]
  by (auto simp: path_exists_def div_path_def walk_append Let_def valid_name_def
                 exists_node_iff in_listdir)

lemma fallback_loop_free:
  "\<not> path_exists fs (div_path dst_folder (fallback_loop fs dst_folder base ext candidate i))"
proof (induction fs dst_folder base ext candidate i rule: fallback_loop.induct)
  case (1 fs dst_folder base ext candidate i)
  show ?case
  proof (cases "path_exists fs (div_path dst_folder candidate)")
    case True
    with 1 show ?thesis by (subst fallback_loop.simps) simp
  next
    case False
    then show ?thesis by (subst fallback_loop.simps) simp
  qed
qed

lemma numbered_name_eq:
  assumes "walk fs [] dst_folder = Some d" "is_dir fs d"
  shows "numbered_name fs dst_folder prefix
           = Inr (prefix @ str_int (Max (insert 0 (indices (listdir fs d) prefix ''.xml'')) + 1) @ ''.xml'')"
  using assms by (simp add: numbered_name_def max_index_def max_index_loop_Max)

lemma pick_new_filename_cases:
  "(map_of numbered_kinds folder = None \<and>
      pick_new_filename fs dst_folder folder fname base ext = Inr (fallback_loop fs dst_folder base ext fname 1)) \<or>
   (\<exists>prefix. map_of numbered_kinds folder = Some prefix \<and>
      pick_new_filename fs dst_folder folder fname base ext = numbered_name fs dst_folder prefix)"
  by (simp add: pick_new_filename_def numbered_kinds_def)

lemma numbered_kinds_no_digit:
  "map_of numbered_kinds folder = Some prefix \<Longrightarrow> \<forall>c \<in> set prefix. \<not> is_digit c"
  by (auto simp: numbered_kinds_def is_digit_def split: if_splits)

section \<open>The name allocator: the returned name is free\<close>

text \<open>
  Claim C6.  In a file system whose names are valid, and for a destination folder that
  resolves to a directory (the copier creates it first), \<open>pick_new_filename\<close> returns a
  name, the name is not in the listing of the folder, and for the six numbered kinds it is
  the prefix, then one plus the maximum of the numbers of the listed names of that kind
  (0 when there is none), then \<open>.xml\<close>.
\<close>

theorem pick_new_filename_free:
  assumes vn: "valid_names fs" and w: "walk fs [] dst_folder = Some d" and dir: "is_dir fs d"
  shows "\<exists>new_fname.
           pick_new_filename fs dst_folder folder fname base ext = Inr new_fname \<and>
           new_fname \<notin> set (listdir fs d) \<and>
           (\<forall>prefix. map_of numbered_kinds folder = Some prefix \<longrightarrow>
              new_fname = prefix @ str_int (Max (insert 0 (indices (listdir fs d) prefix ''.xml'')) + 1) @ ''.xml'')"
proof -
  from pick_new_filename_cases [of folder fs dst_folder fname base ext]
  show ?thesis
  proof (elim disjE conjE exE)
    assume none: "map_of numbered_kinds folder = None"
      and eq: "pick_new_filename fs dst_folder folder fname base ext = Inr (fallback_loop fs dst_folder base ext fname 1)"
    let ?r = "fallback_loop fs dst_folder base ext fname 1"
    have "?r \<notin> set (listdir fs d)"
    proof
      assume m: "?r \<in> set (listdir fs d)"
      from listed_valid_name [OF vn m] have "valid_name ?r" .
      from path_exists_child [OF w dir this] m have "path_exists fs (div_path dst_folder ?r)" by simp
      with fallback_loop_free show False by blast
    qed
    with none eq show ?thesis by simp
  next
    fix prefix
    assume some: "map_of numbered_kinds folder = Some prefix"
      and eq: "pick_new_filename fs dst_folder folder fname base ext = numbered_name fs dst_folder prefix"
    from numbered_not_listed [OF numbered_kinds_no_digit [OF some]]
    show ?thesis using some eq numbered_name_eq [OF w dir] by simp
  qed
qed


theorem pick_new_filename_free_witness:
  "pick_new_filename ex_fs [''w'', ''base'', ''ppt'', ''slides''] ''slides'' ''slide1.xml'' ''slide1'' ''.xml''
     = Inr ''slide2.xml'' \<and>
   ''slide2.xml'' \<notin> set (listdir ex_fs [''w'', ''base'', ''ppt'', ''slides''])"
proof -
  have vn: "valid_names ex_fs" by code_simp
  have w: "walk ex_fs [] [''w'', ''base'', ''ppt'', ''slides''] = Some [''w'', ''base'', ''ppt'', ''slides'']"
    by code_simp
  have dir: "is_dir ex_fs [''w'', ''base'', ''ppt'', ''slides'']" by code_simp
  have e: "pick_new_filename ex_fs [''w'', ''base'', ''ppt'', ''slides''] ''slides'' ''slide1.xml'' ''slide1'' ''.xml''
             = Inr ''slide2.xml''"
    by code_simp
  from pick_new_filename_free [OF vn w dir, of "''slides''" "''slide1.xml''" "''slide1''" "''.xml''"] e
  show ?thesis by simp
qed

section \<open>The dependency copier: a missing part\<close>



section \<open>The dependency copier: one copy for each source path\<close>
















section \<open>The dependency copier on a cycle of relationships\<close>

text \<open>
  Claim C8 fails on the code.  The path of a dependency is formed by
  \<open>(Path(part_rel).parent / target).as_posix()\<close>, which keeps \<open>..\<close>: from the slide
  \<open>slides/slide1.xml\<close> the layout is reached as
  \<open>slides/../slideLayouts/slideLayout1.xml\<close>, from there the master as
  \<open>slides/../slideLayouts/../slideMasters/slideMaster1.xml\<close>, and from there the layout
  again under a longer path still.  Every one of these paths exists on disk and none is a key
  of the name map, so the recursion never meets a path it has recorded.
\<close>

lemma ex_cyclic_paths:
  "as_posix (joinpath (path_parent (Path ''slides/slide1.xml'')) ''../slideLayouts/slideLayout1.xml'')
     = ''slides/../slideLayouts/slideLayout1.xml''"
  "as_posix (joinpath (path_parent (Path ''slides/../slideLayouts/slideLayout1.xml''))
       ''../slideMasters/slideMaster1.xml'')
     = ''slides/../slideLayouts/../slideMasters/slideMaster1.xml''"
  "as_posix (joinpath (path_parent (Path ''slides/../slideLayouts/../slideMasters/slideMaster1.xml''))
       ''../slideLayouts/slideLayout1.xml'')
     = ''slides/../slideLayouts/../slideMasters/../slideLayouts/slideLayout1.xml''"
  by code_simp+

text \<open>
  On the source package of three parts \<open>ex_cyclic_fs\<close>, with a recursion limit of four
  nested calls, the copier ends in \<open>RecursionError\<close>: the nesting exceeds the number of
  distinct source parts.
\<close>

theorem copy_cyclic_recursion_error:
  "copy_part_with_dependencies 4 ex_cyclic_env ''slides/slide1.xml'' ex_cyclic_st = Inl RecursionError"
proof -
  have "case copy_part_with_dependencies 4 ex_cyclic_env ''slides/slide1.xml'' ex_cyclic_st of
          Inl e \<Rightarrow> e = RecursionError | Inr r \<Rightarrow> False"
    by code_simp
  then show ?thesis
    by (cases "copy_part_with_dependencies 4 ex_cyclic_env ''slides/slide1.xml'' ex_cyclic_st") auto
qed

section \<open>The dependency copier: rewritten targets\<close>

text \<open>
  Claim C5 fails on the code when the dependency lies in the folder of the part that refers
  to it.  Slide 1 refers to slide 2 by \<open>../slides/slide2.xml\<close>; the copy of slide 2 is
  recorded under \<open>slides/../slides/slide2.xml\<close>, that is \<open>slides/slide2.xml\<close>; the
  relative path from the folder \<open>slides\<close> is \<open>slide2.xml\<close>, and because it does not
  start with \<open>../\<close> the code puts \<open>../\<close> in front of it.  The rewritten target
  \<open>../slide2.xml\<close>, resolved from the folder \<open>slides\<close>, is \<open>slide2.xml\<close> at the
  root of the package, not the copy.
\<close>

theorem copy_same_folder_target:
  "(case copy_part_with_dependencies 5 ex_same_env ''slides/slide1.xml'' ex_same_st of
      Inl e \<Rightarrow> False
    | Inr r \<Rightarrow>
        fst r = ''slides/slide1.xml'' \<and>
        st_copied (snd r) = [(''slides/slide1.xml'', ''slides/slide1.xml''),
                             (''slides/../slides/slide2.xml'', ''slides/../slides/slide2.xml'')] \<and>
        map_option xml_rels
          (map_of (fs_files (st_fs (snd r))) [''w'', ''base'', ''ppt'', ''slides'', ''_rels'', ''slide1.xml.rels''])
          = Some (Some [rel_to ''rId1'' ''../slide2.xml''])) \<and>
   abspath [] (''slides'' @ ''/'' @ ''../slide2.xml'') = [''slide2.xml''] \<and>
   abspath [] ''slides/../slides/slide2.xml'' = [''slides'', ''slide2.xml'']"
  by code_simp

section \<open>The merge loop\<close>

lemma merge_slide_cases:
  assumes "merge_slide limit env idt sldId ps = Inr ps'"
  shows "(slide_part_rel idt sldId = None \<and> ps' = ps) \<or>
         (\<exists>part_rel d cs ct2.
            slide_part_rel idt sldId = Some part_rel \<and>
            copy_part_with_dependencies limit env part_rel (ps_copier ps) = Inr (d, cs) \<and>
            ps_copier ps' = cs\<lparr>st_ct_dst := ct2\<rparr> \<and>
            ps_sldIdLst ps' = ps_sldIdLst ps @
               [\<lparr>sld_id = Some (str_int (ps_max_sld_id ps + 1)),
                 sld_rid = Some (next_rel_id (ps_pres_rels ps))\<rparr>] \<and>
            ps_pres_rels ps' = ps_pres_rels ps @
               [\<lparr>rel_Id = Some (next_rel_id (ps_pres_rels ps)), rel_Type = Some slide_rel_type,
                 rel_Target = Some d\<rparr>] \<and>
            ps_max_sld_id ps' = ps_max_sld_id ps + 1)"
proof (cases "slide_part_rel idt sldId")
  case None
  with assms show ?thesis by (simp add: merge_slide_def)
next
  case (Some part_rel)
  with assms obtain d cs where
    c: "copy_part_with_dependencies limit env part_rel (ps_copier ps) = Inr (d, cs)"
    by (auto simp: merge_slide_def split: sum.splits)
  with assms Some show ?thesis
    by (auto simp: merge_slide_def Let_def split: sum.splits)
qed



text \<open>The merge of \<open>ex_pk_extra\<close> into \<open>ex_pk_base\<close>, evaluated.\<close>

lemma ex_merge_eval:
  "case merge_presentations 5 [''home''] [''w''] ex_tmp_fs [ex_pk_base, ex_pk_extra] of
     Inl e \<Rightarrow> False
   | Inr ms \<Rightarrow>
       m_sldIdLst ms = [\<lparr>sld_id = Some ''256'', sld_rid = Some ''rId1''\<rparr>,
                        \<lparr>sld_id = Some ''257'', sld_rid = Some ''rId2''\<rparr>,
                        \<lparr>sld_id = Some ''258'', sld_rid = Some ''rId3''\<rparr>] \<and>
       m_pres_rels ms = [slide_rel_to ''rId1'' ''slides/slide1.xml'',
                         slide_rel_to ''rId2'' ''slides/slide2.xml'',
                         slide_rel_to ''rId3'' ''slides/slide3.xml''] \<and>
       m_copied ms = [(1, ''slides/slide2.xml'', ''slides/slide2.xml''),
                      (1, ''slides/slide1.xml'', ''slides/slide3.xml'')]"
  by code_simp

lemma ex_merge_result:
  obtains out where
    "merge_presentations 5 [''home''] [''w''] ex_tmp_fs [ex_pk_base, ex_pk_extra] = Inr out"
    "m_sldIdLst out = [\<lparr>sld_id = Some ''256'', sld_rid = Some ''rId1''\<rparr>,
                       \<lparr>sld_id = Some ''257'', sld_rid = Some ''rId2''\<rparr>,
                       \<lparr>sld_id = Some ''258'', sld_rid = Some ''rId3''\<rparr>]"
    "m_pres_rels out = [slide_rel_to ''rId1'' ''slides/slide1.xml'',
                        slide_rel_to ''rId2'' ''slides/slide2.xml'',
                        slide_rel_to ''rId3'' ''slides/slide3.xml'']"
    "m_copied out = [(1, ''slides/slide2.xml'', ''slides/slide2.xml''),
                     (1, ''slides/slide1.xml'', ''slides/slide3.xml'')]"
  using ex_merge_eval
  by (cases "merge_presentations 5 [''home''] [''w''] ex_tmp_fs [ex_pk_base, ex_pk_extra]") auto

section \<open>The number of slides of the merged deck\<close>

lemma merge_slides_length:
  "merge_slides limit env idt slds ps = Inr ps' \<Longrightarrow>
   length (ps_sldIdLst ps') = length (ps_sldIdLst ps) + length (List.map_filter (slide_part_rel idt) slds)"
proof (induction slds arbitrary: ps)
  case Nil
  then show ?case by (simp add: List.map_filter_simps)
next
  case (Cons e slds)
  from Cons.prems obtain ps1 where
    1: "merge_slide limit env idt e ps = Inr ps1" and 2: "merge_slides limit env idt slds ps1 = Inr ps'"
    by (auto split: sum.splits)
  from merge_slide_cases [OF 1] Cons.IH [OF 2] show ?case
    by (auto simp: List.map_filter_simps)
qed

lemma merge_source_length:
  assumes "merge_source limit wd workdir k src_file ms = Inr ms'"
  shows "length (m_sldIdLst ms') = length (m_sldIdLst ms) + length (slide_parts src_file)"
proof (cases "pk_sldIdLst src_file")
  case None
  with assms show ?thesis
    by (auto simp: merge_source_def slide_parts_def Let_def split: sum.splits)
next
  case (Some l)
  with assms obtain env ps0 ps where
    m: "merge_slides limit env (id_to_target Map.empty (pk_pres_rels src_file)) l ps0 = Inr ps"
    and p0: "ps_sldIdLst ps0 = m_sldIdLst ms" and p: "m_sldIdLst ms' = ps_sldIdLst ps"
    by (auto simp: merge_source_def Let_def split: sum.splits)
  from merge_slides_length [OF m] p0 p Some show ?thesis by (simp add: slide_parts_def)
qed

lemma merge_sources_length:
  "merge_sources limit wd workdir k extras ms = Inr ms' \<Longrightarrow>
   length (m_sldIdLst ms') = length (m_sldIdLst ms) + length (slide_requests k extras)"
proof (induction extras arbitrary: k ms)
  case Nil
  then show ?case by simp
next
  case (Cons src_file rest)
  from Cons.prems obtain ms1 where
    1: "merge_source limit wd workdir k src_file ms = Inr ms1"
    and 2: "merge_sources limit wd workdir (Suc k) rest ms1 = Inr ms'"
    by (auto split: sum.splits)
  from merge_source_length [OF 1] Cons.IH [OF 2] show ?case by simp
qed

text \<open>
  Claim C3, as the code has it.  The merged slide list has as many entries as the slide list
  of the base package, plus, for every other input, the number of entries of its slide list
  that the loop does not skip: those whose \<open>r:id\<close> is the \<open>Id\<close> of a relationship of
  type slide with a non-empty target.  For inputs in which every entry is such, this is the
  sum of the lengths of the slide lists.
\<close>

theorem merged_slide_count:
  assumes "merge_presentations limit wd workdir fs (base # extras) = Inr out"
  shows "length (m_sldIdLst out) = length (slide_list base) + sum_list (map (\<lambda>s. length (slide_parts s)) extras)"
proof -
  from assms obtain fs1 where
    m: "merge_sources limit wd workdir 1 extras
          \<lparr>m_fs = fs1, m_sldIdLst = slide_list base, m_pres_rels = pk_pres_rels base,
           m_ct = pk_ct base, m_max_sld_id = current_max_sld_id (slide_list base),
           m_copied = []\<rparr> = Inr out"
    by (auto simp: merge_presentations_def slide_list_def Let_def split: sum.splits)
  have "length (slide_requests k xs) = sum_list (map (\<lambda>s. length (slide_parts s)) xs)" for k xs
    by (induction xs arbitrary: k) simp_all
  with merge_sources_length [OF m] show ?thesis by simp
qed


theorem merged_slide_count_witness:
  "\<exists>out. merge_presentations 5 [''home''] [''w''] ex_tmp_fs [ex_pk_base, ex_pk_extra] = Inr out \<and>
         length (m_sldIdLst out) = 3 \<and>
         length (slide_list ex_pk_base) + sum_list (map (\<lambda>s. length (slide_parts s)) [ex_pk_extra]) = 3"
proof -
  obtain out where
    m: "merge_presentations 5 [''home''] [''w''] ex_tmp_fs [ex_pk_base, ex_pk_extra] = Inr out"
    and l: "m_sldIdLst out = [\<lparr>sld_id = Some ''256'', sld_rid = Some ''rId1''\<rparr>,
                       \<lparr>sld_id = Some ''257'', sld_rid = Some ''rId2''\<rparr>,
                       \<lparr>sld_id = Some ''258'', sld_rid = Some ''rId3''\<rparr>]"
    by (rule ex_merge_result)
  from merged_slide_count [OF m] l m show ?thesis by simp
qed

text \<open>
  The claim as written fails: the slide list of \<open>ex_pk_dangling\<close> has one entry, whose
  \<open>r:id\<close> is not among its relationships; the loop skips it, and the merged deck has one
  slide, not two.
\<close>

theorem merged_slide_count_counterexample:
  "(case merge_presentations 5 [''home''] [''w''] ex_tmp_fs [ex_pk_base, ex_pk_dangling] of
      Inl e \<Rightarrow> False
    | Inr ms \<Rightarrow> length (m_sldIdLst ms) = 1) \<and>
   length (slide_list ex_pk_base) + length (slide_list ex_pk_dangling) = 2"
  by code_simp

section \<open>The ids of the merged slide list\<close>

lemma current_max_loop_bounds:
  "mx \<le> current_max_sld_id_loop mx els \<and> ids_bounded (current_max_sld_id_loop mx els) els"
proof (induction els arbitrary: mx)
  case Nil
  show ?case by (simp add: ids_bounded_def)
next
  case (Cons el els)
  show ?case
  proof (cases "py_int (case sld_id el of None \<Rightarrow> ''256'' | Some s \<Rightarrow> s)")
    case None
    then have "sld_id_value el = None \<or> sld_id el = None"
      by (auto simp: sld_id_value_def split: option.splits)
    then have "sld_id_value el = None" by (auto simp: sld_id_value_def)
    with None Cons [of mx] show ?thesis by (simp add: ids_bounded_def)
  next
    case (Some v)
    have le: "max mx v \<le> current_max_sld_id_loop (max mx v) els"
      and b: "ids_bounded (current_max_sld_id_loop (max mx v) els) els"
      using Cons [of "max mx v"] by simp_all
    have "\<forall>w. sld_id_value el = Some w \<longrightarrow> w \<le> current_max_sld_id_loop (max mx v) els"
      using Some le by (auto simp: sld_id_value_def split: option.splits)
    with Some le b show ?thesis by (auto simp: ids_bounded_def)
  qed
qed

lemma append_id_step:
  assumes b: "ids_bounded mx xs" and a: "appended_ids_increase n xs"
    and e: "sld_id el = Some (str_int (mx + 1))"
  shows "ids_bounded (mx + 1) (xs @ [el]) \<and> appended_ids_increase n (xs @ [el])"
proof
  have v: "sld_id_value el = Some (mx + 1)" using e by (simp add: sld_id_value_def py_int_str_int)
  show "ids_bounded (mx + 1) (xs @ [el])"
    using b v by (fastforce simp: ids_bounded_def)
  show "appended_ids_increase n (xs @ [el])"
    unfolding appended_ids_increase_def
  proof (intro allI impI)
    fix j
    assume j: "n \<le> j \<and> j < length (xs @ [el])"
    show "\<exists>b. sld_id_value ((xs @ [el]) ! j) = Some b \<and>
             (\<forall>i a. i < j \<and> sld_id_value ((xs @ [el]) ! i) = Some a \<longrightarrow> a < b)"
    proof (cases "j < length xs")
      case True
      with j a obtain c where c: "sld_id_value (xs ! j) = Some c"
        "\<forall>i a. i < j \<and> sld_id_value (xs ! i) = Some a \<longrightarrow> a < c"
        unfolding appended_ids_increase_def by blast
      with True show ?thesis by (auto simp: nth_append)
    next
      case False
      with j have jl: "j = length xs" by simp
      have "\<forall>i a. i < j \<and> sld_id_value ((xs @ [el]) ! i) = Some a \<longrightarrow> a < mx + 1"
      proof (intro allI impI)
        fix i a
        assume "i < j \<and> sld_id_value ((xs @ [el]) ! i) = Some a"
        then have "i < length xs" "sld_id_value (xs ! i) = Some a" using jl by (auto simp: nth_append)
        then have "a \<le> mx" using b unfolding ids_bounded_def by (metis nth_mem)
        then show "a < mx + 1" by simp
      qed
      with v jl show ?thesis by simp
    qed
  qed
qed

lemma merge_slide_ids:
  assumes "merge_slide limit env idt sldId ps = Inr ps'"
    and "ids_ok n (ps_max_sld_id ps) (ps_sldIdLst ps)"
  shows "ids_ok n (ps_max_sld_id ps') (ps_sldIdLst ps')"
  using merge_slide_cases [OF assms(1)] assms(2)
proof (elim disjE conjE exE)
  fix part_rel d cs ct2
  assume l: "ps_sldIdLst ps' = ps_sldIdLst ps @
               [\<lparr>sld_id = Some (str_int (ps_max_sld_id ps + 1)),
                 sld_rid = Some (next_rel_id (ps_pres_rels ps))\<rparr>]"
    and m: "ps_max_sld_id ps' = ps_max_sld_id ps + 1"
  from assms(2) have "ids_bounded (ps_max_sld_id ps) (ps_sldIdLst ps)"
    "appended_ids_increase n (ps_sldIdLst ps)" by (simp_all add: ids_ok_def)
  from append_id_step [OF this, of "\<lparr>sld_id = Some (str_int (ps_max_sld_id ps + 1)),
                 sld_rid = Some (next_rel_id (ps_pres_rels ps))\<rparr>"]
  show ?thesis unfolding l m ids_ok_def by simp
qed simp

lemma merge_slides_ids:
  "merge_slides limit env idt slds ps = Inr ps' \<Longrightarrow>
   ids_ok n (ps_max_sld_id ps) (ps_sldIdLst ps) \<Longrightarrow>
   ids_ok n (ps_max_sld_id ps') (ps_sldIdLst ps')"
proof (induction slds arbitrary: ps)
  case Nil
  then show ?case by simp
next
  case (Cons e slds)
  from Cons.prems obtain ps1 where
    1: "merge_slide limit env idt e ps = Inr ps1" and 2: "merge_slides limit env idt slds ps1 = Inr ps'"
    by (auto split: sum.splits)
  from Cons.IH [OF 2 merge_slide_ids [OF 1 Cons.prems(2)]] show ?case .
qed

lemma merge_source_ids:
  assumes "merge_source limit wd workdir k src_file ms = Inr ms'"
    and "ids_ok n (m_max_sld_id ms) (m_sldIdLst ms)"
  shows "ids_ok n (m_max_sld_id ms') (m_sldIdLst ms')"
proof (cases "pk_sldIdLst src_file")
  case None
  with assms show ?thesis
    by (auto simp: merge_source_def Let_def split: sum.splits)
next
  case (Some l)
  with assms(1) obtain env ps0 ps where
    m: "merge_slides limit env (id_to_target Map.empty (pk_pres_rels src_file)) l ps0 = Inr ps"
    and p0: "ps_sldIdLst ps0 = m_sldIdLst ms" "ps_max_sld_id ps0 = m_max_sld_id ms"
    and p: "m_sldIdLst ms' = ps_sldIdLst ps" "m_max_sld_id ms' = ps_max_sld_id ps"
    by (auto simp: merge_source_def Let_def split: sum.splits)
  from merge_slides_ids [OF m, of n] assms(2) p0 p show ?thesis by simp
qed

lemma merge_sources_ids:
  "merge_sources limit wd workdir k extras ms = Inr ms' \<Longrightarrow>
   ids_ok n (m_max_sld_id ms) (m_sldIdLst ms) \<Longrightarrow>
   ids_ok n (m_max_sld_id ms') (m_sldIdLst ms')"
proof (induction extras arbitrary: k ms)
  case Nil
  then show ?case by simp
next
  case (Cons src_file rest)
  from Cons.prems obtain ms1 where
    1: "merge_source limit wd workdir k src_file ms = Inr ms1"
    and 2: "merge_sources limit wd workdir (Suc k) rest ms1 = Inr ms'"
    by (auto split: sum.splits)
  from Cons.IH [OF 2 merge_source_ids [OF 1 Cons.prems(2)]] show ?case .
qed

text \<open>
  Claim C7, as the code has it.  Every entry that the merge appends to the slide list has a
  numeric id, and it is greater than the numeric id of every entry before it in the merged
  list, those of the base package included.  The entries of the base package keep the ids
  they have, in the order they have.
\<close>

theorem appended_slide_ids_increase:
  assumes "merge_presentations limit wd workdir fs (base # extras) = Inr out"
  shows "\<forall>j. length (slide_list base) \<le> j \<and> j < length (m_sldIdLst out) \<longrightarrow>
           (\<exists>b. sld_id_value (m_sldIdLst out ! j) = Some b \<and>
                (\<forall>i a. i < j \<and> sld_id_value (m_sldIdLst out ! i) = Some a \<longrightarrow> a < b))"
proof -
  from assms obtain fs1 where
    m: "merge_sources limit wd workdir 1 extras
          \<lparr>m_fs = fs1, m_sldIdLst = slide_list base, m_pres_rels = pk_pres_rels base,
           m_ct = pk_ct base, m_max_sld_id = current_max_sld_id (slide_list base),
           m_copied = []\<rparr> = Inr out"
    by (auto simp: merge_presentations_def slide_list_def Let_def split: sum.splits)
  have "ids_bounded (current_max_sld_id (slide_list base)) (slide_list base)"
    using current_max_loop_bounds [of 256 "slide_list base"] by (simp add: current_max_sld_id_def)
  moreover have "appended_ids_increase (length (slide_list base)) (slide_list base)"
    by (auto simp: appended_ids_increase_def)
  ultimately have "ids_ok (length (slide_list base)) (current_max_sld_id (slide_list base)) (slide_list base)"
    by (simp add: ids_ok_def)
  with merge_sources_ids [OF m, of "length (slide_list base)"]
  have "appended_ids_increase (length (slide_list base)) (m_sldIdLst out)"
    by (simp add: ids_ok_def)
  then show ?thesis unfolding appended_ids_increase_def .
qed


theorem appended_slide_ids_increase_witness:
  "\<exists>out. merge_presentations 5 [''home''] [''w''] ex_tmp_fs [ex_pk_base, ex_pk_extra] = Inr out \<and>
         sld_id_value (m_sldIdLst out ! 0) = Some 256 \<and>
         (\<exists>b. sld_id_value (m_sldIdLst out ! 2) = Some b \<and> 256 < b)"
proof -
  obtain out where
    m: "merge_presentations 5 [''home''] [''w''] ex_tmp_fs [ex_pk_base, ex_pk_extra] = Inr out"
    and l: "m_sldIdLst out = [\<lparr>sld_id = Some ''256'', sld_rid = Some ''rId1''\<rparr>,
                       \<lparr>sld_id = Some ''257'', sld_rid = Some ''rId2''\<rparr>,
                       \<lparr>sld_id = Some ''258'', sld_rid = Some ''rId3''\<rparr>]"
    by (rule ex_merge_result)
  have v: "sld_id_value \<lparr>sld_id = Some ''256'', sld_rid = Some ''rId1''\<rparr> = Some 256"
    by code_simp
  have n: "length (slide_list ex_pk_base) = 1" by code_simp
  have j: "length (slide_list ex_pk_base) \<le> 2 \<and> 2 < length (m_sldIdLst out)"
    using n l by simp
  from appended_slide_ids_increase [OF m] j obtain b where
    b: "sld_id_value (m_sldIdLst out ! 2) = Some b"
    "\<forall>i a. i < 2 \<and> sld_id_value (m_sldIdLst out ! i) = Some a \<longrightarrow> a < b"
    by blast
  have v0: "sld_id_value (m_sldIdLst out ! 0) = Some 256" using l v by simp
  have "(0::nat) < 2" by simp
  with b(2) v0 have "256 < b" by blast
  with m v0 b(1) show ?thesis by blast
qed

text \<open>
  The claim as written fails: the merge never renumbers the entries of the base package.
  In \<open>ex_pk_reordered\<close> the second entry has id 257 and the first 258, and so they stay.
\<close>

theorem slide_ids_not_increasing_counterexample:
  "case merge_presentations 5 [''home''] [''w''] ex_tmp_fs [ex_pk_reordered] of
     Inl e \<Rightarrow> False
   | Inr ms \<Rightarrow> map sld_id_value (m_sldIdLst ms) = [Some 258, Some 257]"
  by code_simp

section \<open>The order of the merged slide list\<close>











end
